theory Spec2Isabelle
  imports Complex_Main "HOL-Library.Word" "HOL-Library.Sublist"
begin

section \<open>Numbers, strings and paths\<close>

text \<open>
  The services build file names and error messages from numbers.  A JavaScript number
  that holds an integer is an \<open>int\<close> here; \<open>toString\<close> prints it in decimal.
\<close>

definition digitChar :: "nat \<Rightarrow> char" where
  "digitChar d = ''0123456789'' ! d"

fun dec :: "nat \<Rightarrow> string" where
  "dec n = (if n < 10 then [digitChar n] else dec (n div 10) @ [digitChar (n mod 10)])"

declare dec.simps [simp del]

definition toString :: "int \<Rightarrow> string" where
  "toString i = (if i < 0 then ''-'' @ dec (nat (- i)) else dec (nat i))"

text \<open>\<open>String.prototype.padStart(n, c)\<close>: pad on the left up to length \<open>n\<close>.\<close>

definition padStart :: "nat \<Rightarrow> char \<Rightarrow> string \<Rightarrow> string" where
  "padStart n c s = replicate (n - length s) c @ s"

text \<open>
  \<open>path.join(a, b)\<close> for a directory \<open>a\<close> and a plain file name \<open>b\<close> (no dot
  segments, no leading or trailing separator): the two joined by one separator.
  \<open>os.tmpdir()\<close> is the fixed scratch root of the host.
\<close>

definition pathJoin :: "string \<Rightarrow> string \<Rightarrow> string" where
  "pathJoin a b = a @ ''/'' @ b"

definition tmpdir :: string where
  "tmpdir = ''/tmp''"

text \<open>\<open>Math.ceil(a / b)\<close> on integer-valued numbers, for a positive divisor.\<close>

definition mathCeilDiv :: "int \<Rightarrow> int \<Rightarrow> int" where
  "mathCeilDiv a b = - ((- a) div b)"

text \<open>The remainder operator \<open>a % b\<close>: it truncates, so the sign is the dividend's.\<close>

definition jsRem :: "int \<Rightarrow> int \<Rightarrow> int" where
  "jsRem a b = sgn a * (\<bar>a\<bar> mod \<bar>b\<bar>)"

section \<open>Configuration and errors\<close>

text \<open>
  \<open>UPLOAD_LIMITS\<close> (upload-limits.config): the source reads the two entries below from
  a module-level constant.  The service functions of this theory take the limits as their
  first argument, so that they can also be evaluated at a small chunk size; the
  configured values are \<open>UPLOAD_LIMITS\<close>.
\<close>

record UploadLimits =
  CHUNK :: int
  MAX_TOTAL_FILE :: int

definition UPLOAD_LIMITS :: UploadLimits where
  "UPLOAD_LIMITS = \<lparr> CHUNK = 5 * 1024 * 1024, MAX_TOTAL_FILE = 500 * 1024 * 1024 \<rparr>"

text \<open>
  \<open>new AppError(message, statusCode)\<close> is the error every service throws; the status
  is the HTTP status (400 InvalidRequest, 403 Forbidden, 404 NotFound, 423 Locked).
  \<open>SystemError\<close> stands for an error thrown by the runtime or a collaborator
  (a missing file, a failed storage or database call).
\<close>

datatype error = AppError string int | SystemError string

type_synonym Buffer = "8 word list"

section \<open>Chunked upload: sessions\<close>

record InitUploadInput =
  filename :: string
  fileSize :: int
  totalChunks :: int
  mimeType :: string
  partId :: string
  isSecure :: bool

text \<open>
  \<open>ChunkedUploadSession\<close> has the fields of the init input and the ones the service
  adds.  \<open>receivedChunks\<close> is a JavaScript \<open>Set\<close> of numbers (an array rebuilt from
  a \<open>Set\<close> in the Redis variant): a duplicate-free list in insertion order.
  \<open>createdAt\<close> is read only by the periodic sweep and is left out.
\<close>

record ChunkedUploadSession = InitUploadInput +
  uploadId :: string
  receivedChunks :: "int list"
  tempDir :: string
  userId :: string

definition setAdd :: "int list \<Rightarrow> int \<Rightarrow> int list" where
  "setAdd xs k = (if k \<in> set xs then xs else xs @ [k])"

section \<open>Database rows, queue jobs and the shared state\<close>

datatype RenderStatus = PENDING | PROCESSING | COMPLETED | FAILED

text \<open>
  A \<open>PartFile\<close> row (the asset record).  The schema file is not part of the sources;
  the fields are those the services write and read.
\<close>

record PartFile =
  pf_id :: string
  pf_partId :: string
  title :: string
  displayName :: "string option"
  pf_type :: string
  storageKey :: string
  renderStatus :: RenderStatus
  pf_order :: int
  pf_isSecure :: bool
  pageCount :: int

text \<open>
  Modelled from the spec: the column default of \<open>pageCount\<close>, which no \<open>create\<close>
  call of the sources sets (``page count (0 until known)'').
\<close>

definition defaultPageCount :: int where
  "defaultPageCount = 0"

text \<open>The course a part belongs to (\<open>part.lecture.course\<close>), and an enrollment row.\<close>

record Course =
  c_id :: string
  instructorId :: string
  isFree :: bool

record Enrollment =
  e_id :: string
  e_status :: string

text \<open>
  The payload of a \<open>watermark-pdf\<close> job.  The worker reads \<open>PdfJobData\<close>; the
  in-memory chunked service enqueues a local file path instead.
\<close>

record PdfJobData =
  sourceKey :: string
  sourceMime :: string
  originalName :: string
  partFileId :: string
  adminName :: string

datatype QueueJob = StorageJob PdfJobData | FileJob string string string

text \<open>
  The state the services and the worker act on: the session map, the local file system
  (path to content), the database tables, the two storage zones, the queue and the
  error lines the worker logs.
  Modelled from the spec: the storage provider (its source is not among the files)
  keeps two key spaces, a public and a private one; \<open>uploadPublic\<close> and
  \<open>uploadPrivate\<close> store the bytes under the key, \<open>downloadStream\<close> and
  \<open>delete\<close> act on the private one.
\<close>

record world =
  uploadSessions :: "string \<rightharpoonup> ChunkedUploadSession"
  files :: "string \<rightharpoonup> Buffer"
  parts :: "string \<rightharpoonup> Course"
  users :: "string \<rightharpoonup> string"
  enrollments :: "string \<times> string \<rightharpoonup> Enrollment"
  enrollmentPartLocks :: "string \<times> string \<rightharpoonup> bool"
  partFiles :: "PartFile list"
  publicStorage :: "string \<rightharpoonup> Buffer"
  privateStorage :: "string \<rightharpoonup> Buffer"
  pdfQueue :: "(string \<times> QueueJob) list"
  storageConfigured :: bool
  workerLog :: "string list"

definition emptyWorld :: world where
  "emptyWorld = \<lparr> uploadSessions = Map.empty, files = Map.empty,
     parts = Map.empty, users = Map.empty, enrollments = Map.empty,
     enrollmentPartLocks = Map.empty, partFiles = [], publicStorage = Map.empty,
     privateStorage = Map.empty, pdfQueue = [], storageConfigured = True, workerLog = [] \<rparr>"

section \<open>Chunked upload service\<close>

text \<open>
  \<open>initUpload(userId, input)\<close>; \<open>newId\<close> is the value \<open>uuidv4()\<close> returns.
  The quotient in the first message is printed as an integer (the configured maximum is
  a whole number of megabytes).  A function of this section that throws returns the
  error alone.
\<close>

definition initUpload ::
  "UploadLimits \<Rightarrow> string \<Rightarrow> string \<Rightarrow> InitUploadInput \<Rightarrow> world \<Rightarrow> error + (string \<times> world)" where
  "initUpload L newId uid input w =
    (if fileSize input > MAX_TOTAL_FILE L then
       Inl (AppError (''File too large. Maximum size is ''
              @ toString (MAX_TOTAL_FILE L div (1024 * 1024)) @ ''MB'') 400)
     else
       let expectedChunks = mathCeilDiv (fileSize input) (CHUNK L) in
       if totalChunks input \<noteq> expectedChunks then Inl (AppError ''Invalid chunk count'' 400)
       else
         (case parts w (partId input) of
            None \<Rightarrow> Inl (AppError ''Part not found'' 404)
          | Some course \<Rightarrow>
              let isAdmin = (users w uid = Some ''ADMIN'');
                  isOwner = (instructorId course = uid)
              in if \<not> isAdmin \<and> \<not> isOwner then Inl (AppError ''Access denied'' 403)
                 else
                   let dir = pathJoin tmpdir (''lms-chunked-'' @ newId);
                       session = \<lparr> filename = filename input, fileSize = fileSize input,
                                   totalChunks = totalChunks input, mimeType = mimeType input,
                                   partId = partId input, isSecure = isSecure input,
                                   uploadId = newId, receivedChunks = [], tempDir = dir,
                                   userId = uid \<rparr>
                   in Inr (newId, w\<lparr> uploadSessions := (uploadSessions w)(newId \<mapsto> session) \<rparr>)))"

text \<open>
  \<open>initUpload\<close> of the Redis variant of the service: the privileged role is the
  instructor's; the session goes to Redis with the same fields.
\<close>

definition initUploadRedis ::
  "UploadLimits \<Rightarrow> string \<Rightarrow> string \<Rightarrow> InitUploadInput \<Rightarrow> world \<Rightarrow> error + (string \<times> world)" where
  "initUploadRedis L newId uid input w =
    (if fileSize input > MAX_TOTAL_FILE L then
       Inl (AppError (''File too large. Maximum size is ''
              @ toString (MAX_TOTAL_FILE L div (1024 * 1024)) @ ''MB'') 400)
     else
       let expectedChunks = mathCeilDiv (fileSize input) (CHUNK L) in
       if totalChunks input \<noteq> expectedChunks then Inl (AppError ''Invalid chunk count'' 400)
       else
         (case parts w (partId input) of
            None \<Rightarrow> Inl (AppError ''Part not found'' 404)
          | Some course \<Rightarrow>
              let isInstructor = (users w uid = Some ''INSTRUCTOR'');
                  isOwner = (instructorId course = uid)
              in if \<not> isInstructor \<and> \<not> isOwner then Inl (AppError ''Access denied'' 403)
                 else
                   let dir = pathJoin tmpdir (''lms-chunked-'' @ newId);
                       session = \<lparr> filename = filename input, fileSize = fileSize input,
                                   totalChunks = totalChunks input, mimeType = mimeType input,
                                   partId = partId input, isSecure = isSecure input,
                                   uploadId = newId, receivedChunks = [], tempDir = dir,
                                   userId = uid \<rparr>
                   in Inr (newId, w\<lparr> uploadSessions := (uploadSessions w)(newId \<mapsto> session) \<rparr>)))"

text \<open>The scratch slot of chunk \<open>i\<close>: \<open>chunk-\<close> and the index padded to five digits.\<close>

definition chunkPath :: "string \<Rightarrow> int \<Rightarrow> string" where
  "chunkPath dir i = pathJoin dir (''chunk-'' @ padStart 5 (CHR ''0'') (toString i))"

record UploadProgress =
  received :: int
  total :: int

text \<open>
  \<open>uploadChunk(input)\<close> with \<open>input = {uploadId, chunkIndex, totalChunks, chunk}\<close>;
  the service never reads \<open>input.totalChunks\<close>.  \<open>expectedChunkSize\<close> is computed
  and not used, as in the source.  The in-memory service adds the index to the session's
  \<open>Set\<close>; the Redis variant rebuilds a \<open>Set\<close> from the stored array, adds the index
  and stores the array again, which is the same list.
\<close>

definition uploadChunk ::
  "UploadLimits \<Rightarrow> string \<Rightarrow> int \<Rightarrow> Buffer \<Rightarrow> world \<Rightarrow> error + (UploadProgress \<times> world)" where
  "uploadChunk L upId chunkIndex chunk w =
    (case uploadSessions w upId of
       None \<Rightarrow> Inl (AppError ''Upload session not found or expired'' 404)
     | Some session \<Rightarrow>
         if chunkIndex < 0 \<or> chunkIndex \<ge> totalChunks session then
           Inl (AppError ''Invalid chunk index'' 400)
         else
           let isLastChunk = (chunkIndex = totalChunks session - 1);
               expectedChunkSize =
                 (if isLastChunk
                  then (if jsRem (fileSize session) (CHUNK L) \<noteq> 0
                        then jsRem (fileSize session) (CHUNK L) else CHUNK L)
                  else CHUNK L)
           in if int (length chunk) > CHUNK L then Inl (AppError ''Chunk too large'' 400)
              else
                let w1 = w\<lparr> files := (files w)(chunkPath (tempDir session) chunkIndex \<mapsto> chunk) \<rparr>;
                    session' = session\<lparr> receivedChunks := setAdd (receivedChunks session) chunkIndex \<rparr>
                in Inr (\<lparr> received = int (length (receivedChunks session')),
                           total = totalChunks session' \<rparr>,
                        w1\<lparr> uploadSessions := (uploadSessions w1)(upId \<mapsto> session') \<rparr>))"

text \<open>
  The assembly loop of \<open>finalizeUpload\<close>:
  \<^verbatim>\<open>for (let i = 0; i < session.totalChunks; i++) { read chunk i; write it to the stream }\<close>
  with the bytes written so far in \<open>acc\<close>.  Reading a slot that does not exist throws.
\<close>

function assembleLoop :: "(string \<rightharpoonup> Buffer) \<Rightarrow> string \<Rightarrow> int \<Rightarrow> int \<Rightarrow> Buffer \<Rightarrow> error + Buffer" where
  "assembleLoop fs dir i n acc =
     (if i < n then
        (case fs (chunkPath dir i) of
           None \<Rightarrow> Inl (SystemError ''ENOENT'')
         | Some chunkData \<Rightarrow> assembleLoop fs dir (i + 1) n (acc @ chunkData))
      else Inr acc)"
  by pat_completeness auto
termination
  by (relation "measure (\<lambda>(fs, dir, i, n, acc). nat (n - i))") auto

declare assembleLoop.simps [simp del]

text \<open>
  The first half of \<open>finalizeUpload(userId, input)\<close>, the same in both variants of the
  service: the session lookup, the owner check, the completeness check and the assembly
  into the file \<open>assembled\<close>, which is then read back.  The result is the session and
  \<open>fileBuffer\<close>.
\<close>

definition assembleUpload ::
  "string \<Rightarrow> string \<Rightarrow> world \<Rightarrow> error + (ChunkedUploadSession \<times> Buffer \<times> world)" where
  "assembleUpload uid upId w =
    (case uploadSessions w upId of
       None \<Rightarrow> Inl (AppError ''Upload session not found or expired'' 404)
     | Some session \<Rightarrow>
         if userId session \<noteq> uid then Inl (AppError ''Access denied'' 403)
         else if int (length (receivedChunks session)) \<noteq> totalChunks session then
           Inl (AppError (''Missing chunks. Received ''
                  @ toString (int (length (receivedChunks session))) @ ''/''
                  @ toString (totalChunks session)) 400)
         else
           (case assembleLoop (files w) (tempDir session) 0 (totalChunks session) [] of
              Inl e \<Rightarrow> Inl e
            | Inr fileBuffer \<Rightarrow>
                Inr (session, fileBuffer,
                     w\<lparr> files := (files w)(pathJoin (tempDir session) ''assembled'' \<mapsto> fileBuffer) \<rparr>)))"

text \<open>\<open>getNextOrder(partId)\<close>: one more than the largest order among the part's files.\<close>

definition getNextOrder :: "PartFile list \<Rightarrow> string \<Rightarrow> int" where
  "getNextOrder rows pid =
     (case filter (\<lambda>r. pf_partId r = pid) rows of
        [] \<Rightarrow> 0
      | r # rs \<Rightarrow> fold max (map pf_order rs) (pf_order r)) + 1"

text \<open>\<open>getExtension\<close> of the in-memory chunked service, and of its Redis variant.\<close>

definition getExtensionChunked :: "string \<Rightarrow> string" where
  "getExtensionChunked m =
     (if m = ''application/pdf'' then ''.pdf''
      else if m = ''application/vnd.openxmlformats-officedocument.presentationml.presentation'' then ''.pptx''
      else if m = ''application/vnd.ms-powerpoint'' then ''.ppt''
      else if m = ''application/msword'' then ''.doc''
      else if m = ''application/vnd.openxmlformats-officedocument.wordprocessingml.document'' then ''.docx''
      else ''.bin'')"

definition getExtensionRedis :: "string \<Rightarrow> string" where
  "getExtensionRedis m =
     (if m = ''application/pdf'' then ''.pdf''
      else if m = ''application/vnd.openxmlformats-officedocument.presentationml.presentation'' then ''.pptx''
      else if m = ''application/vnd.ms-powerpoint'' then ''.ppt''
      else if m = ''application/msword'' then ''.doc''
      else if m = ''application/vnd.openxmlformats-officedocument.wordprocessingml.document'' then ''.docx''
      else if m = ''text/plain'' then ''.txt''
      else ''.bin'')"

text \<open>
  \<open>rm(tempDir, {recursive, force})\<close>: every file below the directory goes.
  \<open>cleanupSession\<close> of the in-memory service also drops the session; the Redis variant
  deletes the session key and removes the directory, to the same effect.
\<close>

definition rmDir :: "string \<Rightarrow> (string \<rightharpoonup> Buffer) \<Rightarrow> (string \<rightharpoonup> Buffer)" where
  "rmDir dir fs = (\<lambda>p. if prefix (dir @ ''/'') p then None else fs p)"

definition cleanupSession :: "string \<Rightarrow> world \<Rightarrow> world" where
  "cleanupSession upId w =
     (case uploadSessions w upId of
        None \<Rightarrow> w
      | Some session \<Rightarrow>
          w\<lparr> files := rmDir (tempDir session) (files w),
             uploadSessions := (uploadSessions w)(upId := None) \<rparr>)"

record FinalizeResult =
  fr_storageKey :: string
  assetId :: string

definition publicKey :: "string \<Rightarrow> string \<Rightarrow> string \<Rightarrow> string" where
  "publicKey pid fileId name = ''/public/'' @ pid @ ''/'' @ fileId @ ''/'' @ name"

definition workerInputPath :: "string \<Rightarrow> string \<Rightarrow> string" where
  "workerInputPath fileId ext = pathJoin tmpdir (''lms-upload-'' @ fileId @ ''-input'' @ ext)"

definition stagingKey :: "string \<Rightarrow> string \<Rightarrow> string" where
  "stagingKey fileId ext = ''/staging/pdf-input/'' @ fileId @ ''/source'' @ ext"

text \<open>The two rows the chunked service creates: pending (secure path) and published.\<close>

definition pendingRow :: "string \<Rightarrow> ChunkedUploadSession \<Rightarrow> int \<Rightarrow> PartFile" where
  "pendingRow fileId session ord =
     \<lparr> pf_id = fileId, pf_partId = partId session, title = filename session,
       displayName = Some (filename session), pf_type = ''PDF'', storageKey = [],
       renderStatus = PROCESSING, pf_order = ord, pf_isSecure = True,
       pageCount = defaultPageCount \<rparr>"

definition publishedRow :: "string \<Rightarrow> ChunkedUploadSession \<Rightarrow> string \<Rightarrow> int \<Rightarrow> PartFile" where
  "publishedRow fileId session key ord =
     \<lparr> pf_id = fileId, pf_partId = partId session, title = filename session,
       displayName = None, pf_type = ''PDF'', storageKey = key,
       renderStatus = COMPLETED, pf_order = ord, pf_isSecure = False,
       pageCount = defaultPageCount \<rparr>"

text \<open>The direct branch of \<open>finalizeUpload\<close>, the same in both variants.\<close>

definition publishDirect ::
  "string \<Rightarrow> ChunkedUploadSession \<Rightarrow> Buffer \<Rightarrow> world \<Rightarrow> string \<times> world" where
  "publishDirect fileId session fileBuffer w =
     (let key = publicKey (partId session) fileId (filename session);
          w1 = w\<lparr> publicStorage := (publicStorage w)(key \<mapsto> fileBuffer) \<rparr>;
          w2 = w1\<lparr> partFiles := partFiles w1
                 @ [publishedRow fileId session key (getNextOrder (partFiles w1) (partId session))] \<rparr>
      in (key, w2))"

text \<open>
  \<open>finalizeUpload(userId, input)\<close> of the in-memory service
  (modules/upload/chunked-upload.service.ts); \<open>fileId\<close> is the value \<open>uuidv4()\<close>
  returns.  Of \<open>input = {uploadId, partId, isSecure}\<close> the service reads only
  \<open>uploadId\<close>.  It branches on \<open>session.isSecure\<close>.
\<close>

definition finalizeUpload ::
  "string \<Rightarrow> string \<Rightarrow> string \<Rightarrow> world \<Rightarrow> error + (FinalizeResult \<times> world)" where
  "finalizeUpload fileId uid upId w =
    (case assembleUpload uid upId w of
       Inl e \<Rightarrow> Inl e
     | Inr (session, fileBuffer, w0) \<Rightarrow>
         let (key, w3) =
           (if isSecure session then
              let w1 = w0\<lparr> partFiles := partFiles w0
                         @ [pendingRow fileId session (getNextOrder (partFiles w0) (partId session))] \<rparr>;
                  ext = getExtensionChunked (mimeType session);
                  w2 = w1\<lparr> files := (files w1)(workerInputPath fileId ext \<mapsto> fileBuffer) \<rparr>
              in ([], w2\<lparr> pdfQueue := pdfQueue w2
                       @ [(''watermark-pdf'', FileJob (workerInputPath fileId ext) fileId ''Dr. Manal'')] \<rparr>)
            else publishDirect fileId session fileBuffer w0)
         in Inr (\<lparr> fr_storageKey = key, assetId = fileId \<rparr>, cleanupSession upId w3))"

text \<open>
  \<open>finalizeUpload(userId, input)\<close> of the Redis variant of the service.  It branches on
  \<open>effectiveSecure = session.isSecure || requiresNormalization\<close>; \<open>queueLabel\<close> is
  the constant \<open>WATERMARK_QUEUE_LABEL\<close>.
\<close>

definition finalizeUploadRedis ::
  "string \<Rightarrow> string \<Rightarrow> string \<Rightarrow> string \<Rightarrow> world \<Rightarrow> error + (FinalizeResult \<times> world)" where
  "finalizeUploadRedis queueLabel fileId uid upId w =
    (case assembleUpload uid upId w of
       Inl e \<Rightarrow> Inl e
     | Inr (session, fileBuffer, w0) \<Rightarrow>
         let requiresNormalization = (mimeType session \<noteq> ''application/pdf'');
             effectiveSecure = (isSecure session \<or> requiresNormalization);
             (key, w3) =
           (if effectiveSecure then
              let w1 = w0\<lparr> partFiles := partFiles w0
                         @ [pendingRow fileId session (getNextOrder (partFiles w0) (partId session))] \<rparr>;
                  ext = getExtensionRedis (mimeType session);
                  srcKey = stagingKey fileId ext;
                  w2 = w1\<lparr> privateStorage := (privateStorage w1)(srcKey \<mapsto> fileBuffer) \<rparr>
              in ([], w2\<lparr> pdfQueue := pdfQueue w2
                       @ [(''watermark-pdf'',
                           StorageJob \<lparr> sourceKey = srcKey, sourceMime = mimeType session,
                                        originalName = filename session, partFileId = fileId,
                                        adminName = queueLabel \<rparr>)] \<rparr>)
            else publishDirect fileId session fileBuffer w0)
         in Inr (\<lparr> fr_storageKey = key, assetId = fileId \<rparr>, cleanupSession upId w3))"

section \<open>Single-request upload service\<close>

record MulterFile =
  mimetype :: string
  originalname :: string
  buffer :: Buffer

text \<open>The \<open>isSecure\<close> argument of \<open>uploadLessonPdf\<close>: \<open>string | boolean | undefined\<close>.\<close>

datatype SecureArg = Undefined | StrArg string | BoolArg bool

fun stringOf :: "SecureArg \<Rightarrow> string" where
  "stringOf Undefined = ''undefined''"
| "stringOf (StrArg s) = s"
| "stringOf (BoolArg b) = (if b then ''true'' else ''false'')"

text \<open>
  \<open>path.extname(p)\<close> and \<open>path.parse(p).name\<close> of Node's \<open>path\<close> module, in its POSIX
  form.  Both scan the path from its end.  Separators at the end of the path are skipped;
  the base name is the component that ends there, back to the separator before it.  So
  \<open>a.pdf/\<close> has the base name \<open>a.pdf\<close>, and a path of separators only has none.
\<close>

definition pathBase :: "string \<Rightarrow> string" where
  "pathBase p =
     rev (takeWhile (\<lambda>c. c \<noteq> CHR ''/'') (dropWhile (\<lambda>c. c = CHR ''/'') (rev p)))"

text \<open>
  The extension starts at the last dot of the base name; there is none when the base name
  has no dot or when that dot is its first character.
\<close>

definition lastDotExt :: "string \<Rightarrow> string" where
  "lastDotExt b =
     (let e = rev (takeWhile (\<lambda>c. c \<noteq> CHR ''.'') (rev b))
      in if CHR ''.'' \<notin> set b \<or> length e + 1 = length b then [] else CHR ''.'' # e)"

text \<open>\<open>path.extname\<close>: the base name \<open>..\<close> has no extension either.\<close>

definition pathExtname :: "string \<Rightarrow> string" where
  "pathExtname p = (let b = pathBase p in if b = ''..'' then [] else lastDotExt b)"

text \<open>
  \<open>path.parse(p).name\<close> is the base name without its extension.  \<open>path.parse\<close> does not
  scan the first character of an absolute path, and it tests for \<open>..\<close> by comparing the
  place of the dot with the start of the component as the scan found it, which stays at
  the start of the path when the scan met no separator.  So the test fails for an
  absolute path whose only component is \<open>..\<close>: \<open>/..\<close> has the extension \<open>.\<close> and the
  name \<open>.\<close>, while \<open>..\<close> and \<open>a/..\<close> have the name \<open>..\<close>.
\<close>

definition pathParseName :: "string \<Rightarrow> string" where
  "pathParseName p =
     (let b = pathBase p;
          rest = dropWhile (\<lambda>c. c \<noteq> CHR ''/'') (dropWhile (\<lambda>c. c = CHR ''/'') (rev p));
          ext = (if b = ''..'' \<and> rest \<noteq> ''/'' then [] else lastDotExt b)
      in take (length b - length ext) b)"

text \<open>
  \<open>toLowerCase\<close> on a string of bytes: the letters \<open>A\<close> to \<open>Z\<close> are lowered and every other
  byte is kept.
\<close>

definition lowerChar :: "char \<Rightarrow> char" where
  "lowerChar c =
     (let n = (of_char c :: nat) in if 65 \<le> n \<and> n \<le> 90 then char_of (n + 32) else c)"

definition toLowerCase :: "string \<Rightarrow> string" where
  "toLowerCase s = map lowerChar s"

text \<open>\<open>getExtension\<close> of the upload service: an unknown type throws.\<close>

definition getExtension :: "string \<Rightarrow> error + string" where
  "getExtension m =
     (if m = ''image/jpeg'' \<or> m = ''image/jpg'' then Inr ''.jpg''
      else if m = ''image/png'' then Inr ''.png''
      else if m = ''image/webp'' then Inr ''.webp''
      else if m = ''application/pdf'' then Inr ''.pdf''
      else if m = ''application/vnd.openxmlformats-officedocument.presentationml.presentation'' then Inr ''.pptx''
      else if m = ''application/vnd.ms-powerpoint'' then Inr ''.ppt''
      else if m = ''application/msword'' then Inr ''.doc''
      else if m = ''application/vnd.openxmlformats-officedocument.wordprocessingml.document'' then Inr ''.docx''
      else if m = ''text/plain'' then Inr ''.txt''
      else Inl (AppError ''Unsupported file type'' 400))"

definition allowedMimes :: "string list" where
  "allowedMimes =
     [''application/pdf'',
      ''application/vnd.openxmlformats-officedocument.presentationml.presentation'',
      ''application/vnd.ms-powerpoint'',
      ''application/msword'',
      ''application/vnd.openxmlformats-officedocument.wordprocessingml.document'',
      ''text/plain'']"

datatype UploadResult = Queued string | Created PartFile

text \<open>
  \<open>uploadLessonPdf(userId, lessonId, file, title, isSecureStr)\<close>; \<open>fileId\<close> is the
  value \<open>uuidv4()\<close> returns.  \<open>title || file.originalname\<close> takes the file's name for
  a missing or empty title.
\<close>

definition uploadLessonPdf ::
  "string \<Rightarrow> string \<Rightarrow> string \<Rightarrow> MulterFile \<Rightarrow> string option \<Rightarrow> SecureArg \<Rightarrow> world
     \<Rightarrow> error + (UploadResult \<times> world)" where
  "uploadLessonPdf fileId uid lessonId file ttl isSecureStr w =
    (if \<not> storageConfigured w then Inl (AppError ''Storage not configured (Missing ENV)'' 503)
     else if mimetype file \<notin> set allowedMimes then
       Inl (AppError ''Unsupported file type. Allowed: PDF, PPTX, DOCX, TXT'' 400)
     else
       let requestedSecure = (if isSecureStr = Undefined then True
                              else stringOf isSecureStr = ''true'');
           requiresNormalization = (mimetype file \<noteq> ''application/pdf'');
           secure = (requestedSecure \<or> requiresNormalization);
           theTitle = (case ttl of None \<Rightarrow> originalname file
                       | Some t \<Rightarrow> if t = [] then originalname file else t)
       in
       (case parts w lessonId of
          None \<Rightarrow> Inl (AppError ''Part not found'' 404)
        | Some course \<Rightarrow>
            if instructorId course \<noteq> uid then Inl (AppError ''Access denied'' 403)
            else
              let ord = getNextOrder (partFiles w) lessonId in
              if secure then
                (case getExtension (mimetype file) of
                   Inl e \<Rightarrow> Inl e
                 | Inr ext \<Rightarrow>
                     let srcKey = stagingKey fileId ext;
                         w1 = w\<lparr> privateStorage := (privateStorage w)(srcKey \<mapsto> buffer file) \<rparr>;
                         shown = pathParseName (originalname file) @ ''.pdf'';
                         w2 = w1\<lparr> partFiles := partFiles w1 @
                                [\<lparr> pf_id = fileId, pf_partId = lessonId, title = theTitle,
                                   displayName = Some shown, pf_type = ''PDF'', storageKey = [],
                                   renderStatus = PROCESSING,
                                   pf_order = getNextOrder (partFiles w1) lessonId,
                                   pf_isSecure = secure, pageCount = defaultPageCount \<rparr>] \<rparr>;
                         w3 = w2\<lparr> pdfQueue := pdfQueue w2 @
                                [(''watermark-pdf'',
                                  StorageJob \<lparr> sourceKey = srcKey, sourceMime = mimetype file,
                                               originalName = originalname file,
                                               partFileId = fileId, adminName = ''Dr. Manal'' \<rparr>)] \<rparr>
                     in Inr (Queued fileId, w3))
              else
                let key = publicKey lessonId fileId (originalname file);
                    w1 = w\<lparr> publicStorage := (publicStorage w)(key \<mapsto> buffer file) \<rparr>;
                    row = \<lparr> pf_id = fileId, pf_partId = lessonId, title = theTitle,
                            displayName = None, pf_type = ''PDF'', storageKey = key,
                            renderStatus = COMPLETED, pf_order = ord,
                            pf_isSecure = False, pageCount = defaultPageCount \<rparr>
                in Inr (Created row, w1\<lparr> partFiles := partFiles w1 @ [row] \<rparr>)))"

section \<open>Render worker\<close>

text \<open>
  What the worker's collaborators do during one run of a job: a fault is the error a
  call throws (\<open>None\<close>: the call goes through).  \<open>convert\<close> is the document
  conversion; \<open>stamp\<close> is loading the PDF, drawing the watermark on every page and
  serialising it, with the number of pages.
\<close>

record WorkerEnv =
  statusFault :: "error option"
  downloadFault :: "error option"
  convert :: "Buffer \<Rightarrow> error + Buffer"
  stamp :: "Buffer \<Rightarrow> error + (Buffer \<times> nat)"
  uploadFault :: "error option"
  completeFault :: "error option"
  deleteFault :: "error option"
  failedFault :: "error option"

definition inferExtension :: "string \<Rightarrow> string \<Rightarrow> string" where
  "inferExtension srcMime origName =
     (if srcMime = ''application/pdf'' then ''.pdf''
      else if srcMime = ''application/vnd.openxmlformats-officedocument.presentationml.presentation'' then ''.pptx''
      else if srcMime = ''application/vnd.ms-powerpoint'' then ''.ppt''
      else if srcMime = ''application/msword'' then ''.doc''
      else if srcMime = ''application/vnd.openxmlformats-officedocument.wordprocessingml.document'' then ''.docx''
      else if srcMime = ''text/plain'' then ''.txt''
      else let fromName = toLowerCase (pathExtname origName)
           in if fromName \<noteq> [] then fromName else ''.bin'')"

text \<open>
  \<open>prisma.partFile.update({where: {id}, data})\<close>: the update applies to the rows with
  the id; the call throws when it does not reach the database or when no row has the id.
\<close>

definition hasRow :: "world \<Rightarrow> string \<Rightarrow> bool" where
  "hasRow w i = (i \<in> set (map pf_id (partFiles w)))"

definition onId :: "string \<Rightarrow> (PartFile \<Rightarrow> PartFile) \<Rightarrow> PartFile \<Rightarrow> PartFile" where
  "onId i f r = (if pf_id r = i then f r else r)"

definition updatePartFile ::
  "error option \<Rightarrow> string \<Rightarrow> (PartFile \<Rightarrow> PartFile) \<Rightarrow> world \<Rightarrow> error + world" where
  "updatePartFile fault i f w =
     (case fault of
        Some e \<Rightarrow> Inl e
      | None \<Rightarrow>
          if hasRow w i
          then Inr (w\<lparr> partFiles := map (onId i f) (partFiles w) \<rparr>)
          else Inl (SystemError ''Record to update not found''))"

text \<open>
  Modelled from the spec: \<open>downloadStream(key)\<close> of the storage provider fails when
  nothing is stored under the key (``Download source bytes from the staged key.
  Failure: SOURCE\_NOT\_FOUND'').
\<close>

definition downloadStream :: "error option \<Rightarrow> string \<Rightarrow> world \<Rightarrow> error + Buffer" where
  "downloadStream fault key w =
     (case fault of
        Some e \<Rightarrow> Inl e
      | None \<Rightarrow> (case privateStorage w key of
                   None \<Rightarrow> Inl (SystemError ''Storage object not found'')
                 | Some b \<Rightarrow> Inr b))"

definition logLine :: "string \<Rightarrow> world \<Rightarrow> world" where
  "logLine l w = w\<lparr> workerLog := workerLog w @ [l] \<rparr>"

definition securedPath :: "string \<Rightarrow> string" where
  "securedPath i = ''/secured/'' @ i @ ''.pdf''"

definition renderedTitle :: "PdfJobData \<Rightarrow> string" where
  "renderedTitle job =
     pathParseName (if originalName job \<noteq> [] then originalName job else partFileId job) @ ''.pdf''"

definition markProcessing :: "PartFile \<Rightarrow> PartFile" where
  "markProcessing r = r\<lparr> renderStatus := PROCESSING \<rparr>"

definition markCompleted :: "PdfJobData \<Rightarrow> nat \<Rightarrow> PartFile \<Rightarrow> PartFile" where
  "markCompleted job pages r =
     r\<lparr> renderStatus := COMPLETED, storageKey := securedPath (partFileId job),
        title := renderedTitle job, pageCount := int pages \<rparr>"

definition markFailed :: "PartFile \<Rightarrow> PartFile" where
  "markFailed r = r\<lparr> renderStatus := FAILED \<rparr>"

text \<open>
  The \<open>try\<close> block of the job handler, steps 1 to 9 of the source.  A step that throws
  ends the block with the error and the state reached; the lines are those
  \<open>logWorkerError\<close> and \<open>console.warn\<close> write on a failure (the progress lines and
  the LibreOffice smoke test, which only log, are left out).
\<close>

definition workerSteps :: "WorkerEnv \<Rightarrow> PdfJobData \<Rightarrow> world \<Rightarrow> (error \<times> world) + world" where
  "workerSteps env job w =
    (case updatePartFile (statusFault env) (partFileId job) markProcessing w of
       Inl e \<Rightarrow> Inl (e, w)
     | Inr w1 \<Rightarrow>
        (case downloadStream (downloadFault env) (sourceKey job) w1 of
           Inl e \<Rightarrow> Inl (e, logLine ''SOURCE_NOT_FOUND'' w1)
         | Inr sourceBytes \<Rightarrow>
            let ext = inferExtension (sourceMime job) (originalName job) in
            (case (if ext \<noteq> ''.pdf'' then convert env sourceBytes else Inr sourceBytes) of
               Inl e \<Rightarrow> Inl (e, logLine ''CONVERT_FAILED'' w1)
             | Inr pdfBytes \<Rightarrow>
                (case stamp env pdfBytes of
                   Inl e \<Rightarrow> Inl (e, w1)
                 | Inr (processedPdfBytes, pages) \<Rightarrow>
                    let destinationPath = securedPath (partFileId job) in
                    (case uploadFault env of
                       Some e \<Rightarrow> Inl (e, logLine ''UPLOAD_FAILED'' w1)
                     | None \<Rightarrow>
                        let w2 = w1\<lparr> privateStorage :=
                                      (privateStorage w1)(destinationPath \<mapsto> processedPdfBytes) \<rparr>
                        in
                        (case updatePartFile (completeFault env) (partFileId job)
                                (markCompleted job pages) w2 of
                           Inl e \<Rightarrow> Inl (e, logLine ''DB_UPDATE_FAILED'' w2)
                         | Inr w3 \<Rightarrow>
                            (case deleteFault env of
                               None \<Rightarrow> Inr (w3\<lparr> privateStorage :=
                                                  (privateStorage w3)(sourceKey job := None) \<rparr>)
                             | Some e \<Rightarrow> Inr (logLine ''Step 9: Failed to delete staged source file'' w3))))))))"

text \<open>
  The job handler: the \<open>try\<close> block and its \<open>catch\<close>.  The result is the error the
  handler throws to the queue (\<open>None\<close>: the job completed) and the state it leaves.
\<close>

definition pdfWorker :: "WorkerEnv \<Rightarrow> PdfJobData \<Rightarrow> world \<Rightarrow> error option \<times> world" where
  "pdfWorker env job w =
    (case workerSteps env job w of
       Inr w' \<Rightarrow> (None, w')
     | Inl (e, w') \<Rightarrow>
        let w1 = logLine ''CRITICAL ERROR'' w' in
        (case updatePartFile (failedFault env) (partFileId job) markFailed w1 of
           Inr w2 \<Rightarrow> (Some e, w2)
         | Inl dbError \<Rightarrow> (Some e, logLine ''DB_UPDATE_FAILED'' w1)))"

section \<open>Reading an asset\<close>

record StreamResult =
  stream :: Buffer
  contentType :: string
  sr_filename :: string

definition findPartFile :: "world \<Rightarrow> string \<Rightarrow> PartFile option" where
  "findPartFile w i = find (\<lambda>r. pf_id r = i) (partFiles w)"

text \<open>
  The access check shared by \<open>getRenderedPage\<close> and \<open>getSecurePdf\<close>, with
  \<open>checkPartAccessWithLocks\<close>; \<open>None\<close>: access granted.  A row's part always exists
  (a foreign key), so the lookup of its course does not fail.
\<close>

definition accessError :: "world \<Rightarrow> string \<Rightarrow> PartFile \<Rightarrow> Course \<Rightarrow> error option" where
  "accessError w uid partFile course =
     (let enrollment = enrollments w (uid, c_id course);
          isInstructor = (instructorId course = uid);
          isAdmin = (users w uid = Some ''ADMIN'');
          hasAccess = (isInstructor \<or> isAdmin \<or> isFree course
                       \<or> (case enrollment of None \<Rightarrow> False | Some e \<Rightarrow> e_status e = ''ACTIVE''))
      in if \<not> hasAccess then Some (AppError ''Access denied'' 403)
         else (case enrollment of
                 None \<Rightarrow> None
               | Some e \<Rightarrow>
                   if \<not> isInstructor \<and> \<not> isAdmin
                      \<and> enrollmentPartLocks w (e_id e, pf_partId partFile) = Some True
                   then Some (AppError ''This content is currently locked by the administrator.'' 403)
                   else None))"

text \<open>\<open>getRenderedPage(userId, partFileId, pageNumber)\<close>, for an integer page number.\<close>

definition getRenderedPage :: "string \<Rightarrow> string \<Rightarrow> int \<Rightarrow> world \<Rightarrow> error + StreamResult" where
  "getRenderedPage uid i pageNumber w =
    (case findPartFile w i of
       None \<Rightarrow> Inl (AppError ''Document not found'' 404)
     | Some partFile \<Rightarrow>
        (case parts w (pf_partId partFile) of
           None \<Rightarrow> Inl (SystemError ''TypeError'')
         | Some course \<Rightarrow>
            (case accessError w uid partFile course of
               Some e \<Rightarrow> Inl e
             | None \<Rightarrow>
                if pageNumber < 1 \<or> pageNumber > pageCount partFile then
                  Inl (AppError ''Page not found'' 404)
                else
                  let pageKey = storageKey partFile @ ''/page-'' @ toString pageNumber @ ''.png'' in
                  (case downloadStream None pageKey w of
                     Inl e \<Rightarrow> Inl e
                   | Inr s \<Rightarrow> Inr \<lparr> stream = s, contentType = ''image/png'',
                                   sr_filename = ''page-'' @ toString pageNumber @ ''.png'' \<rparr>))))"

text \<open>\<open>getSecurePdf(userId, assetId)\<close>.\<close>

definition getSecurePdf :: "string \<Rightarrow> string \<Rightarrow> world \<Rightarrow> error + StreamResult" where
  "getSecurePdf uid i w =
    (case findPartFile w i of
       None \<Rightarrow> Inl (AppError ''Document not found'' 404)
     | Some partFile \<Rightarrow>
        (case parts w (pf_partId partFile) of
           None \<Rightarrow> Inl (SystemError ''TypeError'')
         | Some course \<Rightarrow>
            (case accessError w uid partFile course of
               Some e \<Rightarrow> Inl e
             | None \<Rightarrow>
                if renderStatus partFile \<noteq> COMPLETED then
                  Inl (AppError ''Document is processing'' 423)
                else
                  (case downloadStream None (storageKey partFile) w of
                     Inl e \<Rightarrow> Inl (AppError ''File not found in storage'' 404)
                   | Inr s \<Rightarrow>
                      Inr \<lparr> stream = s, contentType = ''application/pdf'',
                            sr_filename = (case displayName partFile of
                                             None \<Rightarrow> title partFile @ ''.pdf''
                                           | Some d \<Rightarrow> if d = [] then title partFile @ ''.pdf'' else d) \<rparr>))))"


section \<open>Auxiliary definitions\<close>

text \<open>Reading a decimal string back, to show that chunk slots do not collide.\<close>

definition digitVal :: "char \<Rightarrow> nat" where
  "digitVal c = of_char c - 48"

definition decVal :: "string \<Rightarrow> nat" where
  "decVal s = foldl (\<lambda>a c. 10 * a + digitVal c) 0 s"


text \<open>
  A client's run of \<open>uploadChunk\<close> calls on one session, in the order given; it
  stops at the first call that fails.
\<close>

fun uploadChunks :: "UploadLimits \<Rightarrow> string \<Rightarrow> (int \<times> Buffer) list \<Rightarrow> world \<Rightarrow> error + world" where
  "uploadChunks L upId [] w = Inr w"
| "uploadChunks L upId ((k, b) # rest) w =
     (case uploadChunk L upId k b w of
        Inl e \<Rightarrow> Inl e
      | Inr (r, w') \<Rightarrow> uploadChunks L upId rest w')"

text \<open>
  The client's split of a file at the chunk boundary: pieces of \<open>n\<close> bytes, the last
  one the remainder.
\<close>

fun splitFile :: "nat \<Rightarrow> 'a list \<Rightarrow> 'a list list" where
  "splitFile n xs = (if n = 0 \<or> xs = [] then [] else take n xs # splitFile n (drop n xs))"

declare splitFile.simps [simp del]

text \<open>What one accepted chunk does to the file system and to the received set.\<close>

definition putChunk :: "string \<Rightarrow> int \<times> Buffer \<Rightarrow> (string \<rightharpoonup> Buffer) \<Rightarrow> (string \<rightharpoonup> Buffer)" where
  "putChunk dir kb f = f(chunkPath dir (fst kb) \<mapsto> snd kb)"

definition noteChunk :: "int \<times> Buffer \<Rightarrow> int list \<Rightarrow> int list" where
  "noteChunk kb xs = setAdd xs (fst kb)"


text \<open>
  The invariant of a session: the received indices are distinct, lie in
  \<open>[0, totalChunks)\<close>, and each has its slot on disk.
\<close>

definition sessionInv :: "world \<Rightarrow> ChunkedUploadSession \<Rightarrow> bool" where
  "sessionInv w s =
     (0 \<le> totalChunks s \<and> distinct (receivedChunks s)
      \<and> (\<forall>k\<in>set (receivedChunks s).
             0 \<le> k \<and> k < totalChunks s \<and> files w (chunkPath (tempDir s) k) \<noteq> None))"


text \<open>Sample data: a chunk size of two bytes, one part owned by \<open>alice\<close>.\<close>

definition smallLimits :: UploadLimits where
  "smallLimits = \<lparr> CHUNK = 2, MAX_TOTAL_FILE = 100 \<rparr>"

definition demoWorld :: world where
  "demoWorld = emptyWorld\<lparr> parts := [''p1'' \<mapsto> \<lparr> c_id = ''c1'', instructorId = ''alice'', isFree = False \<rparr>] \<rparr>"

definition demoInput :: InitUploadInput where
  "demoInput = \<lparr> filename = ''notes.pdf'', fileSize = 5, totalChunks = 3,
                 mimeType = ''application/pdf'', partId = ''p1'', isSecure = False \<rparr>"

definition demoFile :: Buffer where
  "demoFile = [1, 2, 3, 4, 5]"

definition openedWorld :: world where
  "openedWorld = (case initUpload smallLimits ''u1'' ''alice'' demoInput demoWorld of
                    Inr (i, w) \<Rightarrow> w | Inl e \<Rightarrow> demoWorld)"

definition partialWorld :: world where
  "partialWorld = (case uploadChunk smallLimits ''u1'' 0 [1, 2] openedWorld of
                     Inr (r, w) \<Rightarrow> w | Inl e \<Rightarrow> openedWorld)"

definition partialSession :: ChunkedUploadSession where
  "partialSession = \<lparr> filename = ''notes.pdf'', fileSize = 5, totalChunks = 3,
       mimeType = ''application/pdf'', partId = ''p1'', isSecure = False,
       uploadId = ''u1'', receivedChunks = [0], tempDir = ''/tmp/lms-chunked-u1'',
       userId = ''alice'' \<rparr>"


text \<open>A 12 MB upload in three chunks, and a word-processor file sent for direct publishing.\<close>

definition bigInput :: InitUploadInput where
  "bigInput = \<lparr> filename = ''lecture.pdf'', fileSize = 12582912, totalChunks = 3,
                mimeType = ''application/pdf'', partId = ''p1'', isSecure = True \<rparr>"

definition docxMime :: string where
  "docxMime = ''application/vnd.openxmlformats-officedocument.wordprocessingml.document''"

definition docxInput :: InitUploadInput where
  "docxInput = \<lparr> filename = ''notes.docx'', fileSize = 3, totalChunks = 1,
                 mimeType = docxMime, partId = ''p1'', isSecure = False \<rparr>"

text \<open>What a run of init, one chunk and finalize leaves: the rows and the queue.\<close>

definition chunkedRun ::
  "(string \<Rightarrow> string \<Rightarrow> string \<Rightarrow> world \<Rightarrow> error + (FinalizeResult \<times> world))
     \<Rightarrow> InitUploadInput \<Rightarrow> Buffer \<Rightarrow> error + (PartFile list \<times> (string \<times> QueueJob) list)" where
  "chunkedRun finalize input bytes =
     (case initUpload UPLOAD_LIMITS ''u1'' ''alice'' input demoWorld of
        Inl e \<Rightarrow> Inl e
      | Inr (i, w1) \<Rightarrow>
          (case uploadChunk UPLOAD_LIMITS i 0 bytes w1 of
             Inl e \<Rightarrow> Inl e
           | Inr (r, w2) \<Rightarrow>
               (case finalize ''f1'' ''alice'' i w2 of
                  Inl e \<Rightarrow> Inl e
                | Inr (res, w3) \<Rightarrow> Inr (partFiles w3, pdfQueue w3))))"


text \<open>Step 3 of the worker: the bytes are converted unless they are a PDF already.\<close>

definition normalized :: "WorkerEnv \<Rightarrow> PdfJobData \<Rightarrow> Buffer \<Rightarrow> error + Buffer" where
  "normalized env job b =
     (if inferExtension (sourceMime job) (originalName job) \<noteq> ''.pdf''
      then convert env b else Inr b)"

text \<open>
  The failures of the worker's steps, in the words of the specification: step 1 (status
  update), step 2 (download), step 3 (conversion), steps 4 and 5 (watermarking and
  serialisation), step 6 (upload), step 7 (database update).  \<open>stepThrows env job w e\<close>:
  the first step that throws, throws \<open>e\<close>.  The deletion of the staged source is not
  among them.
\<close>

definition stepThrows :: "WorkerEnv \<Rightarrow> PdfJobData \<Rightarrow> world \<Rightarrow> error \<Rightarrow> bool" where
  "stepThrows env job w e =
     (statusFault env = Some e
      \<or> statusFault env = None \<and> \<not> hasRow w (partFileId job)
          \<and> e = SystemError ''Record to update not found''
      \<or> statusFault env = None \<and> hasRow w (partFileId job) \<and>
         (downloadFault env = Some e
          \<or> downloadFault env = None \<and>
             (case privateStorage w (sourceKey job) of
                None \<Rightarrow> e = SystemError ''Storage object not found''
              | Some b \<Rightarrow>
                  (case normalized env job b of
                     Inl x \<Rightarrow> e = x
                   | Inr p \<Rightarrow>
                       (case stamp env p of
                          Inl x \<Rightarrow> e = x
                        | Inr y \<Rightarrow> uploadFault env = Some e
                                  \<or> uploadFault env = None \<and> completeFault env = Some e)))))"

text \<open>The state after step 1, and after the upload of step 7 of the source.\<close>

definition afterStatus :: "PdfJobData \<Rightarrow> world \<Rightarrow> world" where
  "afterStatus job w = w\<lparr> partFiles := map (onId (partFileId job) markProcessing) (partFiles w) \<rparr>"

definition afterUpload :: "PdfJobData \<Rightarrow> Buffer \<Rightarrow> world \<Rightarrow> world" where
  "afterUpload job out w =
     (afterStatus job w)\<lparr> privateStorage :=
        (privateStorage w)(securedPath (partFileId job) \<mapsto> out) \<rparr>"

definition afterComplete :: "PdfJobData \<Rightarrow> Buffer \<Rightarrow> nat \<Rightarrow> world \<Rightarrow> world" where
  "afterComplete job out pages w =
     (afterUpload job out w)\<lparr> partFiles :=
        map (onId (partFileId job) (markCompleted job pages)) (partFiles (afterUpload job out w)) \<rparr>"


text \<open>
  The invariant of the asset record as the specification states it, and the half of it
  that every run of the worker keeps.
\<close>

definition keyIffCompleted :: "PartFile \<Rightarrow> bool" where
  "keyIffCompleted r = (storageKey r \<noteq> [] \<longleftrightarrow> renderStatus r = COMPLETED)"

definition completedHasKey :: "PartFile \<Rightarrow> bool" where
  "completedHasKey r = (renderStatus r = COMPLETED \<longrightarrow> storageKey r \<noteq> [])"


text \<open>
  Sample run of the secure path: \<open>alice\<close> uploads \<open>notes.pdf\<close> with the single-request
  operation, the worker renders it, and the same job is delivered a second time.
\<close>

definition demoDoc :: MulterFile where
  "demoDoc = \<lparr> mimetype = ''application/pdf'', originalname = ''notes.pdf'', buffer = [1, 2, 3] \<rparr>"

definition stagedWorld :: world where
  "stagedWorld = (case uploadLessonPdf ''f1'' ''alice'' ''p1'' demoDoc None Undefined demoWorld of
                    Inr (r, w) \<Rightarrow> w | Inl e \<Rightarrow> demoWorld)"

definition demoJob :: PdfJobData where
  "demoJob = \<lparr> sourceKey = ''/staging/pdf-input/f1/source.pdf'', sourceMime = ''application/pdf'',
               originalName = ''notes.pdf'', partFileId = ''f1'', adminName = ''Dr. Manal'' \<rparr>"

definition okEnv :: WorkerEnv where
  "okEnv = \<lparr> statusFault = None, downloadFault = None, convert = Inr,
             stamp = (\<lambda>b. Inr (b @ [87], 3)), uploadFault = None, completeFault = None,
             deleteFault = None, failedFault = None \<rparr>"

definition renderedWorld :: world where
  "renderedWorld = snd (pdfWorker okEnv demoJob stagedWorld)"

definition redeliveredWorld :: world where
  "redeliveredWorld = snd (pdfWorker okEnv demoJob renderedWorld)"

text \<open>The row of the sample asset after the upload, and after the first run.\<close>

definition stagedRow :: PartFile where
  "stagedRow = \<lparr> pf_id = ''f1'', pf_partId = ''p1'', title = ''notes.pdf'',
       displayName = Some ''notes.pdf'', pf_type = ''PDF'', storageKey = [],
       renderStatus = PROCESSING, pf_order = 1, pf_isSecure = True, pageCount = 0 \<rparr>"

definition renderedRow :: PartFile where
  "renderedRow = \<lparr> pf_id = ''f1'', pf_partId = ''p1'', title = ''notes.pdf'',
       displayName = Some ''notes.pdf'', pf_type = ''PDF'', storageKey = ''/secured/f1.pdf'',
       renderStatus = COMPLETED, pf_order = 1, pf_isSecure = True, pageCount = 3 \<rparr>"


text \<open>A run in which the upload of the result fails, and one in which the cleanup does.\<close>

definition boomEnv :: WorkerEnv where
  "boomEnv = okEnv\<lparr> uploadFault := Some (SystemError ''boom'') \<rparr>"

definition keepEnv :: WorkerEnv where
  "keepEnv = okEnv\<lparr> deleteFault := Some (SystemError ''busy'') \<rparr>"

definition keptWorld :: world where
  "keptWorld = snd (pdfWorker keepEnv demoJob stagedWorld)"

text \<open>A one-chunk upload of a PDF for direct publishing, finalized by either variant.\<close>

definition pdfInput :: InitUploadInput where
  "pdfInput = \<lparr> filename = ''notes.pdf'', fileSize = 3, totalChunks = 1,
                mimeType = ''application/pdf'', partId = ''p1'', isSecure = False \<rparr>"

definition uploadedWorld :: world where
  "uploadedWorld =
     (case initUpload UPLOAD_LIMITS ''u1'' ''alice'' pdfInput demoWorld of
        Inl e \<Rightarrow> demoWorld
      | Inr (i, w1) \<Rightarrow> (case uploadChunk UPLOAD_LIMITS i 0 [1, 2, 3] w1 of
                         Inl e \<Rightarrow> w1 | Inr (r, w2) \<Rightarrow> w2))"

definition publishedWorld :: world where
  "publishedWorld = (case finalizeUpload ''f1'' ''alice'' ''u1'' uploadedWorld of
                       Inl e \<Rightarrow> uploadedWorld | Inr (r, w) \<Rightarrow> w)"

definition publishedWorldRedis :: world where
  "publishedWorldRedis = (case finalizeUploadRedis ''lbl'' ''f1'' ''alice'' ''u1'' uploadedWorld of
                       Inl e \<Rightarrow> uploadedWorld | Inr (r, w) \<Rightarrow> w)"

text \<open>The example of the specification: 10\,000\,000 bytes declared as one chunk.\<close>

definition tenMillion :: InitUploadInput where
  "tenMillion = \<lparr> filename = ''a.pdf'', fileSize = 10000000, totalChunks = 1,
       mimeType = ''application/pdf'', partId = ''p1'', isSecure = True \<rparr>"

section \<open>Properties\<close>

subsection \<open>Chunk slots do not collide\<close>

lemma digitVal_digitChar: "d < 10 \<Longrightarrow> digitVal (digitChar d) = d"
proof -
  assume "d < 10"
  then have "d \<in> {0,1,2,3,4,5,6,7,8,9}" by auto
  then show ?thesis by (auto simp: digitVal_def digitChar_def)
qed

lemma decVal_snoc: "decVal (s @ [c]) = 10 * decVal s + digitVal c"
  by (simp add: decVal_def)

lemma decVal_dec: "decVal (dec n) = n"
proof (induction n rule: dec.induct)
  case (1 n)
  show ?case
  proof (cases "n < 10")
    case True
    then show ?thesis by (subst dec.simps) (simp add: decVal_def digitVal_digitChar)
  next
    case False
    with 1 show ?thesis by (subst dec.simps) (simp add: decVal_snoc digitVal_digitChar)
  qed
qed

lemma decVal_zeros: "decVal (replicate k (CHR ''0'') @ s) = decVal s"
proof -
  have "foldl (\<lambda>a c. 10 * a + digitVal c) 0 (replicate k (CHR ''0'')) = 0"
    by (induction k) (simp_all add: digitVal_def)
  then show ?thesis by (simp add: decVal_def)
qed

lemma chunkPath_inj:
  assumes "chunkPath dir i = chunkPath dir j" "0 \<le> i" "0 \<le> j"
  shows "i = j"
proof -
  from assms have "padStart 5 (CHR ''0'') (dec (nat i)) = padStart 5 (CHR ''0'') (dec (nat j))"
    by (simp add: chunkPath_def pathJoin_def toString_def)
  then have "decVal (padStart 5 (CHR ''0'') (dec (nat i))) = decVal (padStart 5 (CHR ''0'') (dec (nat j)))"
    by simp
  then have "nat i = nat j" by (simp add: padStart_def decVal_zeros decVal_dec)
  with assms show ?thesis by simp
qed

lemma chunkPath_not_assembled: "chunkPath dir i \<noteq> pathJoin dir ''assembled''"
  by (simp add: chunkPath_def pathJoin_def)

subsection \<open>Uploading chunks and assembling them\<close>

lemma putChunk_pair: "putChunk dir (k, b) f = f(chunkPath dir k \<mapsto> b)"
  by (simp add: putChunk_def)

lemma noteChunk_pair: "noteChunk (k, b) xs = setAdd xs k"
  by (simp add: noteChunk_def)

lemma uploadChunk_ok:
  assumes "uploadSessions w upId = Some s" "0 \<le> k" "k < totalChunks s"
    "int (length chunk) \<le> CHUNK L"
  shows "uploadChunk L upId k chunk w =
     Inr (\<lparr> received = int (length (setAdd (receivedChunks s) k)), total = totalChunks s \<rparr>,
          w\<lparr> files := (files w)(chunkPath (tempDir s) k \<mapsto> chunk),
             uploadSessions := (uploadSessions w)(upId \<mapsto> s\<lparr> receivedChunks := setAdd (receivedChunks s) k \<rparr>) \<rparr>)"
  using assms by (simp add: uploadChunk_def Let_def)

lemma uploadChunk_Inr_iff:
  "(\<exists>r w'. uploadChunk L upId k chunk w = Inr (r, w')) \<longleftrightarrow>
   (\<exists>s. uploadSessions w upId = Some s \<and> 0 \<le> k \<and> k < totalChunks s \<and> int (length chunk) \<le> CHUNK L)"
  by (auto simp: uploadChunk_def Let_def split: option.splits)

lemma uploadChunks_ok:
  assumes "uploadSessions w upId = Some s"
    and "\<forall>(k, b)\<in>set ups. 0 \<le> k \<and> k < totalChunks s \<and> int (length b) \<le> CHUNK L"
  shows "\<exists>w'. uploadChunks L upId ups w = Inr w'
           \<and> files w' = fold (putChunk (tempDir s)) ups (files w)
           \<and> uploadSessions w' upId
               = Some (s\<lparr> receivedChunks := fold noteChunk ups (receivedChunks s) \<rparr>)"
  using assms
proof (induction ups arbitrary: w s)
  case Nil
  then show ?case by simp
next
  case (Cons a ups)
  obtain k b where a: "a = (k, b)" by (cases a)
  define s' where "s' = s\<lparr> receivedChunks := setAdd (receivedChunks s) k \<rparr>"
  define w1 where "w1 = w\<lparr> files := (files w)(chunkPath (tempDir s) k \<mapsto> b),
             uploadSessions := (uploadSessions w)(upId \<mapsto> s') \<rparr>"
  from Cons.prems a have kb: "0 \<le> k" "k < totalChunks s" "int (length b) \<le> CHUNK L" by auto
  have step: "uploadChunk L upId k b w =
      Inr (\<lparr> received = int (length (setAdd (receivedChunks s) k)), total = totalChunks s \<rparr>, w1)"
    using uploadChunk_ok [OF Cons.prems(1) kb] by (simp add: w1_def s'_def)
  have s1: "uploadSessions w1 upId = Some s'" by (simp add: w1_def)
  have rest: "\<forall>(k, b)\<in>set ups. 0 \<le> k \<and> k < totalChunks s' \<and> int (length b) \<le> CHUNK L"
    using Cons.prems(2) by (auto simp: s'_def)
  from Cons.IH [OF s1 rest] obtain w' where w': "uploadChunks L upId ups w1 = Inr w'"
     "files w' = fold (putChunk (tempDir s')) ups (files w1)"
     "uploadSessions w' upId = Some (s'\<lparr> receivedChunks := fold noteChunk ups (receivedChunks s') \<rparr>)"
    by blast
  have f1: "files w1 = putChunk (tempDir s) a (files w)" by (simp add: w1_def a putChunk_pair)
  have r1: "receivedChunks s' = noteChunk a (receivedChunks s)" by (simp add: s'_def a noteChunk_pair)
  have "uploadChunks L upId (a # ups) w = Inr w'" using step w'(1) a by simp
  moreover have "files w' = fold (putChunk (tempDir s)) (a # ups) (files w)"
    using w'(2) f1 by (simp add: s'_def)
  moreover have "uploadSessions w' upId
       = Some (s\<lparr> receivedChunks := fold noteChunk (a # ups) (receivedChunks s) \<rparr>)"
    using w'(3) r1 by (simp add: s'_def)
  ultimately show ?case by blast
qed

lemma set_fold_setAdd:
  "set (fold noteChunk ups xs) = set xs \<union> fst ` set ups"
  by (induction ups arbitrary: xs) (auto simp: setAdd_def noteChunk_pair split: if_splits)

lemma distinct_fold_setAdd:
  "distinct xs \<Longrightarrow> distinct (fold noteChunk ups xs)"
  by (induction ups arbitrary: xs) (auto simp: setAdd_def noteChunk_pair)

lemma fold_files_other:
  assumes "\<forall>(k, b)\<in>set ups. chunkPath dir k \<noteq> p"
  shows "fold (putChunk dir) ups f p = f p"
  using assms by (induction ups arbitrary: f) (auto simp: putChunk_pair)

lemma fold_files_hit:
  assumes "distinct (map fst ups)" "(i, c) \<in> set ups" "\<forall>(k, b)\<in>set ups. 0 \<le> k"
  shows "fold (putChunk dir) ups f (chunkPath dir i) = Some c"
  using assms
proof (induction ups arbitrary: f)
  case Nil
  then show ?case by simp
next
  case (Cons a ups)
  obtain k b where a: "a = (k, b)" by (cases a)
  show ?case
  proof (cases "(i, c) \<in> set ups")
    case True
    with Cons a show ?thesis by auto
  next
    case False
    with Cons.prems a have ic: "i = k" "c = b" by auto
    from Cons.prems a ic have nin: "\<forall>(k', b')\<in>set ups. chunkPath dir k' \<noteq> chunkPath dir i"
      by (auto dest!: chunkPath_inj simp: rev_image_eqI)
    show ?thesis using fold_files_other [OF nin] a ic by (simp add: putChunk_pair)
  qed
qed

lemma assembleLoop_ok:
  assumes "\<forall>j. i \<le> j \<and> j < n \<longrightarrow> fs (chunkPath dir j) = Some (c (nat j))" "0 \<le> i" "i \<le> n"
  shows "assembleLoop fs dir i n acc = Inr (acc @ concat (map c [nat i..<nat n]))"
  using assms
proof (induction fs dir i n acc rule: assembleLoop.induct)
  case (1 fs dir i n acc)
  show ?case
  proof (cases "i < n")
    case False
    with 1 show ?thesis by (subst assembleLoop.simps) simp
  next
    case True
    with 1 have here: "fs (chunkPath dir i) = Some (c (nat i))" by simp
    have ih: "assembleLoop fs dir (i + 1) n (acc @ c (nat i))
               = Inr ((acc @ c (nat i)) @ concat (map c [nat (i + 1)..<nat n]))"
      using "1.IH" [OF True here] 1 True by simp
    have "[nat i..<nat n] = nat i # [nat (i + 1)..<nat n]"
      using True 1 by (simp add: upt_conv_Cons nat_add_distrib)
    with ih here True show ?thesis by (subst assembleLoop.simps) simp
  qed
qed

lemma assembleLoop_missing:
  assumes "fs (chunkPath dir j) = None" "i \<le> j" "j < n"
  shows "\<exists>e. assembleLoop fs dir i n acc = Inl e"
  using assms
proof (induction fs dir i n acc rule: assembleLoop.induct)
  case (1 fs dir i n acc)
  then have lt: "i < n" by simp
  show ?case
  proof (cases "fs (chunkPath dir i)")
    case None
    with lt show ?thesis by (subst assembleLoop.simps) simp
  next
    case (Some d)
    with 1 have "i \<noteq> j" by auto
    with 1 have "i + 1 \<le> j" by simp
    from "1.IH" [OF lt Some "1.prems"(1) this "1.prems"(3)] Some lt
    show ?thesis by (subst assembleLoop.simps) simp
  qed
qed

lemma concat_splitFile: "0 < n \<Longrightarrow> concat (splitFile n xs) = xs"
proof (induction n xs rule: splitFile.induct)
  case (1 n xs)
  then show ?case by (subst splitFile.simps) auto
qed

lemma length_splitFile_chunk: "c \<in> set (splitFile n xs) \<Longrightarrow> length c \<le> n"
proof (induction n xs rule: splitFile.induct)
  case (1 n xs)
  from "1.prems" show ?case
    by (subst (asm) splitFile.simps) (auto split: if_splits dest: "1.IH" [rotated])
qed

lemma ceil_step: "0 < (n::int) \<Longrightarrow> mathCeilDiv a n = 1 + mathCeilDiv (a - n) n"
proof -
  assume n: "0 < n"
  have "(- (a - n)) div n = (- a + n * 1) div n" by simp
  also have "\<dots> = (- a) div n + 1" using n by (subst div_mult_self2) simp_all
  finally show ?thesis by (simp add: mathCeilDiv_def)
qed

lemma ceil_small: "0 < a \<Longrightarrow> a < (n::int) \<Longrightarrow> mathCeilDiv a n = 1"
  by (simp add: mathCeilDiv_def zdiv_zminus1_eq_if div_pos_pos_trivial)

lemma length_splitFile:
  "0 < n \<Longrightarrow> int (length (splitFile n xs)) = mathCeilDiv (int (length xs)) (int n)"
proof (induction n xs rule: splitFile.induct)
  case (1 n xs)
  show ?case
  proof (cases "xs = []")
    case True
    then show ?thesis by (subst splitFile.simps) (simp add: mathCeilDiv_def)
  next
    case False
    with 1 have ih: "int (length (splitFile n (drop n xs))) = mathCeilDiv (int (length (drop n xs))) (int n)"
      by simp
    have len: "int (length (splitFile n xs)) = 1 + int (length (splitFile n (drop n xs)))"
      using False "1.prems" by (subst splitFile.simps) simp
    show ?thesis
    proof (cases "n \<le> length xs")
      case True
      then have "int (length (drop n xs)) = int (length xs) - int n" by simp
      with len ih ceil_step [of "int n" "int (length xs)"] "1.prems" show ?thesis by simp
    next
      case False
      then have d: "splitFile n (drop n xs) = []" by (subst splitFile.simps) simp
      from False \<open>xs \<noteq> []\<close> have "0 < int (length xs)" "int (length xs) < int n" by auto
      with len d ceil_small show ?thesis by simp
    qed
  qed
qed


subsection \<open>Sessions and completeness\<close>

lemma initUpload_Inr:
  assumes "initUpload L newId uid input w = Inr (u, w')"
  shows "u = newId \<and> fileSize input \<le> MAX_TOTAL_FILE L
       \<and> totalChunks input = mathCeilDiv (fileSize input) (CHUNK L)
       \<and> files w' = files w
       \<and> uploadSessions w' = (uploadSessions w)(newId \<mapsto>
            \<lparr> filename = filename input, fileSize = fileSize input,
              totalChunks = totalChunks input, mimeType = mimeType input,
              partId = partId input, isSecure = isSecure input,
              uploadId = newId, receivedChunks = [],
              tempDir = pathJoin tmpdir (''lms-chunked-'' @ newId), userId = uid \<rparr>)"
  using assms by (auto simp: initUpload_def Let_def split: if_splits option.splits)

lemma initUploadRedis_Inr:
  assumes "initUploadRedis L newId uid input w = Inr (u, w')"
  shows "u = newId \<and> fileSize input \<le> MAX_TOTAL_FILE L
       \<and> totalChunks input = mathCeilDiv (fileSize input) (CHUNK L)
       \<and> files w' = files w
       \<and> uploadSessions w' = (uploadSessions w)(newId \<mapsto>
            \<lparr> filename = filename input, fileSize = fileSize input,
              totalChunks = totalChunks input, mimeType = mimeType input,
              partId = partId input, isSecure = isSecure input,
              uploadId = newId, receivedChunks = [],
              tempDir = pathJoin tmpdir (''lms-chunked-'' @ newId), userId = uid \<rparr>)"
  using assms by (auto simp: initUploadRedis_def Let_def split: if_splits option.splits)

lemma mathCeilDiv_nonneg: "0 < b \<Longrightarrow> 0 \<le> a \<Longrightarrow> 0 \<le> mathCeilDiv a b"
proof -
  assume "0 < b" "0 \<le> a"
  then have "(- a) div b \<le> 0" by (simp add: div_nonpos_pos_le0)
  then show ?thesis by (simp add: mathCeilDiv_def)
qed

lemma initUpload_sessionInv:
  assumes "0 < CHUNK L" "0 \<le> fileSize input" "initUpload L newId uid input w = Inr (u, w')"
  shows "\<exists>s. uploadSessions w' newId = Some s \<and> sessionInv w' s"
  using initUpload_Inr [OF assms(3)] mathCeilDiv_nonneg [OF assms(1,2)]
  by (simp add: sessionInv_def)

lemma initUploadRedis_sessionInv:
  assumes "0 < CHUNK L" "0 \<le> fileSize input" "initUploadRedis L newId uid input w = Inr (u, w')"
  shows "\<exists>s. uploadSessions w' newId = Some s \<and> sessionInv w' s"
  using initUploadRedis_Inr [OF assms(3)] mathCeilDiv_nonneg [OF assms(1,2)]
  by (simp add: sessionInv_def)

lemma uploadChunk_Inr:
  assumes "uploadChunk L upId k chunk w = Inr (r, w')"
  shows "\<exists>s. uploadSessions w upId = Some s \<and> 0 \<le> k \<and> k < totalChunks s
           \<and> int (length chunk) \<le> CHUNK L
           \<and> r = \<lparr> received = int (length (setAdd (receivedChunks s) k)), total = totalChunks s \<rparr>
           \<and> files w' = (files w)(chunkPath (tempDir s) k \<mapsto> chunk)
           \<and> uploadSessions w' = (uploadSessions w)(upId \<mapsto> s\<lparr> receivedChunks := setAdd (receivedChunks s) k \<rparr>)"
  using assms by (auto simp: uploadChunk_def Let_def split: if_splits option.splits)

lemma uploadChunk_sessionInv:
  assumes "uploadSessions w u = Some s" "sessionInv w s" "uploadChunk L upId k chunk w = Inr (r, w')"
  shows "\<exists>s'. uploadSessions w' u = Some s' \<and> sessionInv w' s'"
proof -
  from uploadChunk_Inr [OF assms(3)] obtain t where t:
    "uploadSessions w upId = Some t" "0 \<le> k" "k < totalChunks t"
    "files w' = (files w)(chunkPath (tempDir t) k \<mapsto> chunk)"
    "uploadSessions w' = (uploadSessions w)(upId \<mapsto> t\<lparr> receivedChunks := setAdd (receivedChunks t) k \<rparr>)"
    by blast
  show ?thesis
  proof (cases "u = upId")
    case True
    with assms t have "s = t" by simp
    with assms(2) t True show ?thesis
      by (auto simp: sessionInv_def setAdd_def)
  next
    case False
    with assms t show ?thesis by (auto simp: sessionInv_def)
  qed
qed

lemma complete_iff:
  assumes "sessionInv w s"
  shows "int (length (receivedChunks s)) = totalChunks s \<longleftrightarrow> set (receivedChunks s) = {0..<totalChunks s}"
proof -
  from assms have d: "distinct (receivedChunks s)" and n: "0 \<le> totalChunks s"
    and sub: "set (receivedChunks s) \<subseteq> {0..<totalChunks s}"
    by (auto simp: sessionInv_def)
  have c: "card (set (receivedChunks s)) = length (receivedChunks s)"
    using d by (simp add: distinct_card)
  show ?thesis
  proof
    assume "int (length (receivedChunks s)) = totalChunks s"
    with c n have "card (set (receivedChunks s)) = card {0..<totalChunks s}" by simp
    with sub show "set (receivedChunks s) = {0..<totalChunks s}"
      by (simp add: card_subset_eq)
  next
    assume "set (receivedChunks s) = {0..<totalChunks s}"
    with c n show "int (length (receivedChunks s)) = totalChunks s" by simp
  qed
qed

lemma assembleUpload_complete:
  assumes "uploadSessions w upId = Some s" "sessionInv w s" "userId s = uid"
    "set (receivedChunks s) = {0..<totalChunks s}"
  shows "assembleUpload uid upId w
     = Inr (s, concat (map (\<lambda>j. the (files w (chunkPath (tempDir s) (int j)))) [0..<nat (totalChunks s)]),
            w\<lparr> files := (files w)(pathJoin (tempDir s) ''assembled''
                \<mapsto> concat (map (\<lambda>j. the (files w (chunkPath (tempDir s) (int j)))) [0..<nat (totalChunks s)])) \<rparr>)"
proof -
  from assms(2) have n: "0 \<le> totalChunks s" by (simp add: sessionInv_def)
  have len: "int (length (receivedChunks s)) = totalChunks s"
    using complete_iff [OF assms(2)] assms(4) by simp
  have ex: "\<forall>j. 0 \<le> j \<and> j < totalChunks s \<longrightarrow>
      files w (chunkPath (tempDir s) j) = Some (the (files w (chunkPath (tempDir s) (int (nat j)))))"
    using assms(2,4) by (auto simp: sessionInv_def)
  have "assembleLoop (files w) (tempDir s) 0 (totalChunks s) []
     = Inr ([] @ concat (map (\<lambda>j. the (files w (chunkPath (tempDir s) (int j)))) [nat 0..<nat (totalChunks s)]))"
    by (rule assembleLoop_ok [OF ex _ n]) simp
  with assms(1,3) len show ?thesis by (simp add: assembleUpload_def)
qed

lemma assembleUpload_incomplete:
  assumes "uploadSessions w upId = Some s" "sessionInv w s" "userId s = uid"
    "set (receivedChunks s) \<noteq> {0..<totalChunks s}"
  shows "assembleUpload uid upId w
     = Inl (AppError (''Missing chunks. Received ''
              @ toString (int (card (set (receivedChunks s)))) @ ''/''
              @ toString (totalChunks s)) 400)"
proof -
  have len: "int (length (receivedChunks s)) \<noteq> totalChunks s"
    using complete_iff [OF assms(2)] assms(4) by simp
  have c: "card (set (receivedChunks s)) = length (receivedChunks s)"
    using assms(2) by (simp add: sessionInv_def distinct_card)
  with assms(1,3) len show ?thesis by (simp add: assembleUpload_def)
qed

lemma assembleUpload_forbidden:
  assumes "uploadSessions w upId = Some s" "userId s \<noteq> uid"
  shows "assembleUpload uid upId w = Inl (AppError ''Access denied'' 403)"
  using assms by (simp add: assembleUpload_def)

lemma finalizeUpload_Inl:
  "assembleUpload uid upId w = Inl e \<Longrightarrow> finalizeUpload fileId uid upId w = Inl e"
  by (simp add: finalizeUpload_def)

lemma finalizeUploadRedis_Inl:
  "assembleUpload uid upId w = Inl e \<Longrightarrow> finalizeUploadRedis lbl fileId uid upId w = Inl e"
  by (simp add: finalizeUploadRedis_def)

lemma finalizeUpload_Inr:
  "assembleUpload uid upId w = Inr x \<Longrightarrow> \<exists>res w'. finalizeUpload fileId uid upId w = Inr (res, w')"
  by (cases x) (simp add: finalizeUpload_def Let_def split: prod.splits)

lemma finalizeUploadRedis_Inr:
  "assembleUpload uid upId w = Inr x \<Longrightarrow> \<exists>res w'. finalizeUploadRedis lbl fileId uid upId w = Inr (res, w')"
  by (cases x) (simp add: finalizeUploadRedis_def Let_def split: prod.splits)

text \<open>
  C2.  For a session with \<open>totalChunks = N\<close> (in a state the service reaches, see
  \<open>initUpload_sessionInv\<close> and \<open>uploadChunk_sessionInv\<close>; the storage, database and
  queue calls go through), \<open>finalizeUpload\<close> of either variant called
  by the owner succeeds if and only if the received indices are exactly \<open>{0..<N}\<close>;
  with a chunk missing it fails with status 400 and a message that gives the number of
  received chunks out of \<open>N\<close>; called by anyone else it fails with status 403.
\<close>

theorem finalize_completeness:
  assumes "uploadSessions w upId = Some s" and "sessionInv w s"
  shows "(userId s = uid \<longrightarrow>
            ((\<exists>res w'. finalizeUpload fileId uid upId w = Inr (res, w'))
               \<longleftrightarrow> set (receivedChunks s) = {0..<totalChunks s})
          \<and> ((\<exists>res w'. finalizeUploadRedis lbl fileId uid upId w = Inr (res, w'))
               \<longleftrightarrow> set (receivedChunks s) = {0..<totalChunks s}))
       \<and> (userId s = uid \<and> set (receivedChunks s) \<noteq> {0..<totalChunks s} \<longrightarrow>
            finalizeUpload fileId uid upId w
              = Inl (AppError (''Missing chunks. Received ''
                       @ toString (int (card (set (receivedChunks s)))) @ ''/''
                       @ toString (totalChunks s)) 400)
          \<and> finalizeUploadRedis lbl fileId uid upId w
              = Inl (AppError (''Missing chunks. Received ''
                       @ toString (int (card (set (receivedChunks s)))) @ ''/''
                       @ toString (totalChunks s)) 400))
       \<and> (userId s \<noteq> uid \<longrightarrow>
            finalizeUpload fileId uid upId w = Inl (AppError ''Access denied'' 403)
          \<and> finalizeUploadRedis lbl fileId uid upId w = Inl (AppError ''Access denied'' 403))"
proof (intro conjI impI)
  assume u: "userId s = uid"
  show "(\<exists>res w'. finalizeUpload fileId uid upId w = Inr (res, w'))
          \<longleftrightarrow> set (receivedChunks s) = {0..<totalChunks s}"
  proof (cases "set (receivedChunks s) = {0..<totalChunks s}")
    case True
    from finalizeUpload_Inr [OF assembleUpload_complete [OF assms u True]] True
    show ?thesis by simp
  next
    case False
    from finalizeUpload_Inl [OF assembleUpload_incomplete [OF assms u False]] False
    show ?thesis by simp
  qed
  show "(\<exists>res w'. finalizeUploadRedis lbl fileId uid upId w = Inr (res, w'))
          \<longleftrightarrow> set (receivedChunks s) = {0..<totalChunks s}"
  proof (cases "set (receivedChunks s) = {0..<totalChunks s}")
    case True
    from finalizeUploadRedis_Inr [OF assembleUpload_complete [OF assms u True]] True
    show ?thesis by simp
  next
    case False
    from finalizeUploadRedis_Inl [OF assembleUpload_incomplete [OF assms u False]] False
    show ?thesis by simp
  qed
next
  assume a: "userId s = uid \<and> set (receivedChunks s) \<noteq> {0..<totalChunks s}"
  then show "finalizeUpload fileId uid upId w
              = Inl (AppError (''Missing chunks. Received ''
                       @ toString (int (card (set (receivedChunks s)))) @ ''/''
                       @ toString (totalChunks s)) 400)"
    using finalizeUpload_Inl [OF assembleUpload_incomplete [OF assms]] by simp
  from a show "finalizeUploadRedis lbl fileId uid upId w
              = Inl (AppError (''Missing chunks. Received ''
                       @ toString (int (card (set (receivedChunks s)))) @ ''/''
                       @ toString (totalChunks s)) 400)"
    using finalizeUploadRedis_Inl [OF assembleUpload_incomplete [OF assms]] by simp
next
  assume n: "userId s \<noteq> uid"
  then show "finalizeUpload fileId uid upId w = Inl (AppError ''Access denied'' 403)"
    using finalizeUpload_Inl [OF assembleUpload_forbidden [OF assms(1)]] by simp
  from n show "finalizeUploadRedis lbl fileId uid upId w = Inl (AppError ''Access denied'' 403)"
    using finalizeUploadRedis_Inl [OF assembleUpload_forbidden [OF assms(1)]] by simp
qed




lemma configured_chunk_positive: "0 < CHUNK UPLOAD_LIMITS"
  by (simp add: UPLOAD_LIMITS_def)

lemma assembleUpload_Inr:
  assumes "assembleUpload uid upId w = Inr (s, b, w')"
  shows "uploadSessions w upId = Some s \<and> userId s = uid
       \<and> w' = w\<lparr> files := (files w)(pathJoin (tempDir s) ''assembled'' \<mapsto> b) \<rparr>"
  using assms by (auto simp: assembleUpload_def split: option.splits if_splits sum.splits)

lemma not_under_scratch:
  "\<not> prefix (pathJoin tmpdir (''lms-chunked-'' @ u) @ ''/'') (workerInputPath fileId ext)"
  by (simp add: pathJoin_def tmpdir_def workerInputPath_def)

lemma finalizeUpload_stores:
  assumes "assembleUpload uid upId w = Inr (s, b, w')"
    and "tempDir s = pathJoin tmpdir (''lms-chunked-'' @ u)"
  shows "\<exists>res w3. finalizeUpload fileId uid upId w = Inr (res, w3) \<and> assetId res = fileId
           \<and> (if isSecure s
               then files w3 (workerInputPath fileId (getExtensionChunked (mimeType s))) = Some b
               else publicStorage w3 (fr_storageKey res) = Some b)"
proof -
  from assembleUpload_Inr [OF assms(1)] have s: "uploadSessions w upId = Some s"
    and w': "w' = w\<lparr> files := (files w)(pathJoin (tempDir s) ''assembled'' \<mapsto> b) \<rparr>" by simp_all
  have s': "uploadSessions w' upId = Some s" using s w' by simp
  show ?thesis
  proof (cases "isSecure s")
    case True
    with assms s' not_under_scratch [of u fileId "getExtensionChunked (mimeType s)"] show ?thesis
      by (simp add: finalizeUpload_def Let_def cleanupSession_def rmDir_def)
  next
    case False
    with assms s' show ?thesis
      by (simp add: finalizeUpload_def Let_def cleanupSession_def publishDirect_def)
  qed
qed

lemma finalizeUploadRedis_stores:
  assumes "assembleUpload uid upId w = Inr (s, b, w')"
  shows "\<exists>res w3. finalizeUploadRedis lbl fileId uid upId w = Inr (res, w3) \<and> assetId res = fileId
           \<and> (if isSecure s \<or> mimeType s \<noteq> ''application/pdf''
               then privateStorage w3 (stagingKey fileId (getExtensionRedis (mimeType s))) = Some b
               else publicStorage w3 (fr_storageKey res) = Some b)"
proof -
  from assembleUpload_Inr [OF assms(1)] have s: "uploadSessions w upId = Some s"
    and w': "w' = w\<lparr> files := (files w)(pathJoin (tempDir s) ''assembled'' \<mapsto> b) \<rparr>" by simp_all
  have s': "uploadSessions w' upId = Some s" using s w' by simp
  show ?thesis
  proof (cases "isSecure s \<or> mimeType s \<noteq> ''application/pdf''")
    case True
    with assms s' show ?thesis
      by (simp add: finalizeUploadRedis_def Let_def cleanupSession_def)
  next
    case False
    with assms s' show ?thesis
      by (simp add: finalizeUploadRedis_def Let_def cleanupSession_def publishDirect_def)
  qed
qed

text \<open>
  C1.  A file is split at the chunk boundary into chunks \<open>0..N-1\<close> and the chunks are
  uploaded to a new session in any order (a permutation \<open>order\<close> of the indices).
  Then \<open>finalizeUpload\<close> succeeds and the bytes it assembles, and hands to storage
  or to the worker, are the file.  Both variants of the service, any positive chunk size
  (the configured one is positive, \<open>configured_chunk_positive\<close>).
\<close>

theorem assembly_order_invariant:
  assumes L: "0 < CHUNK L"
    and size: "fileSize input = int (length file)"
    and init: "initUpload L newId uid input w0 = Inr (newId, w1)
             \<or> initUploadRedis L newId uid input w0 = Inr (newId, w1)"
    and ord: "distinct order" "set order = {0..<length (splitFile (nat (CHUNK L)) file)}"
  shows "\<exists>w2. uploadChunks L newId
                 (map (\<lambda>i. (int i, splitFile (nat (CHUNK L)) file ! i)) order) w1 = Inr w2
          \<and> (\<exists>s w'. assembleUpload uid newId w2 = Inr (s, file, w'))
          \<and> (\<exists>res w3. finalizeUpload fileId uid newId w2 = Inr (res, w3)
                \<and> (if isSecure input
                    then files w3 (workerInputPath fileId (getExtensionChunked (mimeType input))) = Some file
                    else publicStorage w3 (fr_storageKey res) = Some file))
          \<and> (\<exists>res w3. finalizeUploadRedis lbl fileId uid newId w2 = Inr (res, w3)
                \<and> (if isSecure input \<or> mimeType input \<noteq> ''application/pdf''
                    then privateStorage w3 (stagingKey fileId (getExtensionRedis (mimeType input))) = Some file
                    else publicStorage w3 (fr_storageKey res) = Some file))"
proof -
  define chunks where "chunks = splitFile (nat (CHUNK L)) file"
  define dir where "dir = pathJoin tmpdir (''lms-chunked-'' @ newId)"
  define s0 where "s0 = \<lparr> filename = filename input, fileSize = fileSize input,
              totalChunks = totalChunks input, mimeType = mimeType input,
              partId = partId input, isSecure = isSecure input,
              uploadId = newId, receivedChunks = [], tempDir = dir, userId = uid \<rparr>"
  define ups where "ups = map (\<lambda>i. (int i, chunks ! i)) order"
  from L have nL: "0 < nat (CHUNK L)" "int (nat (CHUNK L)) = CHUNK L" by simp_all
  from init have "uploadSessions w1 newId = Some s0
      \<and> totalChunks input = mathCeilDiv (fileSize input) (CHUNK L)"
  proof
    assume "initUpload L newId uid input w0 = Inr (newId, w1)"
    from initUpload_Inr [OF this] show ?thesis by (simp add: s0_def dir_def)
  next
    assume "initUploadRedis L newId uid input w0 = Inr (newId, w1)"
    from initUploadRedis_Inr [OF this] show ?thesis by (simp add: s0_def dir_def)
  qed
  then have s0: "uploadSessions w1 newId = Some s0"
    and tot: "totalChunks input = mathCeilDiv (fileSize input) (CHUNK L)"
    by simp_all
  have N: "totalChunks s0 = int (length chunks)"
    using tot size length_splitFile [OF nL(1), of "file"] nL(2) by (simp add: s0_def chunks_def)
  have inrange: "\<forall>(k, b)\<in>set ups. 0 \<le> k \<and> k < totalChunks s0 \<and> int (length b) \<le> CHUNK L"
  proof -
    have "\<And>i. i \<in> set order \<Longrightarrow> int (length (chunks ! i)) \<le> CHUNK L"
    proof -
      fix i assume "i \<in> set order"
      with ord have "chunks ! i \<in> set chunks" by (simp add: chunks_def)
      then have "length (chunks ! i) \<le> nat (CHUNK L)"
        unfolding chunks_def by (rule length_splitFile_chunk)
      then show "int (length (chunks ! i)) \<le> CHUNK L" using nL by linarith
    qed
    with ord N show ?thesis by (auto simp: ups_def chunks_def)
  qed
  from uploadChunks_ok [OF s0 inrange] obtain w2 where w2:
    "uploadChunks L newId ups w1 = Inr w2"
    "files w2 = fold (putChunk (tempDir s0)) ups (files w1)"
    "uploadSessions w2 newId = Some (s0\<lparr> receivedChunks := fold noteChunk ups (receivedChunks s0) \<rparr>)"
    by blast
  define s2 where "s2 = s0\<lparr> receivedChunks := fold noteChunk ups [] \<rparr>"
  have s2: "uploadSessions w2 newId = Some s2" using w2(3) by (simp add: s2_def s0_def)
  have dups: "distinct (map fst ups)"
    using ord(1) by (simp add: ups_def comp_def distinct_map inj_on_def)
  have nonneg: "\<forall>(k, b)\<in>set ups. 0 \<le> k" using inrange by auto
  have slot: "\<And>j. j < length chunks \<Longrightarrow> files w2 (chunkPath dir (int j)) = Some (chunks ! j)"
  proof -
    fix j assume "j < length chunks"
    with ord have "(int j, chunks ! j) \<in> set ups" by (auto simp: ups_def chunks_def)
    from fold_files_hit [OF dups this nonneg] w2(2) show "files w2 (chunkPath dir (int j)) = Some (chunks ! j)"
      by (simp add: s0_def)
  qed
  have rset: "set (receivedChunks s2) = {0..<totalChunks s2}"
  proof -
    have "set (receivedChunks s2) = int ` set order"
      by (simp add: s2_def set_fold_setAdd ups_def image_image)
    also have "\<dots> = {0..<int (length chunks)}"
      using ord(2) by (simp add: chunks_def image_int_atLeastLessThan)
    finally show ?thesis using N by (simp add: s2_def s0_def)
  qed
  have inv: "sessionInv w2 s2"
    unfolding sessionInv_def
  proof (intro conjI ballI)
    show "0 \<le> totalChunks s2" using N by (simp add: s2_def s0_def)
    show "distinct (receivedChunks s2)" by (simp add: s2_def distinct_fold_setAdd)
  next
    fix k assume k: "k \<in> set (receivedChunks s2)"
    with rset have k0: "0 \<le> k" "k < totalChunks s2" by auto
    then show "0 \<le> k" "k < totalChunks s2" by simp_all
    from k0 N have "nat k < length chunks" by (simp add: s2_def s0_def)
    from slot [OF this] k0 show "files w2 (chunkPath (tempDir s2) k) \<noteq> None"
      by (simp add: s2_def s0_def)
  qed
  have uid: "userId s2 = uid" by (simp add: s2_def s0_def)
  have bytes: "concat (map (\<lambda>j. the (files w2 (chunkPath (tempDir s2) (int j)))) [0..<nat (totalChunks s2)]) = file"
  proof -
    have "map (\<lambda>j. the (files w2 (chunkPath (tempDir s2) (int j)))) [0..<nat (totalChunks s2)]
            = map (\<lambda>j. chunks ! j) [0..<length chunks]"
      using N slot by (simp add: s2_def s0_def)
    also have "\<dots> = chunks" by (rule map_nth)
    finally show ?thesis using concat_splitFile [OF nL(1)] by (simp add: chunks_def)
  qed
  from assembleUpload_complete [OF s2 inv uid rset] bytes
  obtain w' where asm: "assembleUpload uid newId w2 = Inr (s2, file, w')" by simp
  have td: "tempDir s2 = pathJoin tmpdir (''lms-chunked-'' @ newId)" by (simp add: s2_def s0_def dir_def)
  have flds: "isSecure s2 = isSecure input" "mimeType s2 = mimeType input" by (simp_all add: s2_def s0_def)
  have f1: "\<exists>res w3. finalizeUpload fileId uid newId w2 = Inr (res, w3)
                \<and> (if isSecure input
                    then files w3 (workerInputPath fileId (getExtensionChunked (mimeType input))) = Some file
                    else publicStorage w3 (fr_storageKey res) = Some file)"
    using finalizeUpload_stores [OF asm td, of fileId] unfolding flds by blast
  have f2: "\<exists>res w3. finalizeUploadRedis lbl fileId uid newId w2 = Inr (res, w3)
                \<and> (if isSecure input \<or> mimeType input \<noteq> ''application/pdf''
                    then privateStorage w3 (stagingKey fileId (getExtensionRedis (mimeType input))) = Some file
                    else publicStorage w3 (fr_storageKey res) = Some file)"
    using finalizeUploadRedis_stores [OF asm, of lbl fileId] unfolding flds by blast
  from w2(1) asm f1 f2 show ?thesis unfolding ups_def chunks_def by blast
qed


lemma demo_init:
  "initUpload smallLimits ''u1'' ''alice'' demoInput demoWorld = Inr (''u1'', openedWorld)"
  by (simp add: openedWorld_def initUpload_def smallLimits_def demoInput_def demoWorld_def
      emptyWorld_def mathCeilDiv_def Let_def)

lemma demo_split: "splitFile (nat (CHUNK smallLimits)) demoFile = [[1, 2], [3, 4], [5]]"
  by (simp add: smallLimits_def demoFile_def splitFile.simps)

lemma demo_order: "set [2, 0, 1::nat] = {0..<length (splitFile (nat (CHUNK smallLimits)) demoFile)}"
  by (auto simp: demo_split)

theorem assembly_order_invariant_witness:
  "0 < CHUNK smallLimits \<and> fileSize demoInput = int (length demoFile)
   \<and> initUpload smallLimits ''u1'' ''alice'' demoInput demoWorld = Inr (''u1'', openedWorld)
   \<and> distinct [2, 0, 1::nat]
   \<and> set [2, 0, 1::nat] = {0..<length (splitFile (nat (CHUNK smallLimits)) demoFile)}
   \<and> (\<exists>w2. uploadChunks smallLimits ''u1'' [(2, [5]), (0, [1, 2]), (1, [3, 4])] openedWorld = Inr w2
          \<and> (\<exists>s w'. assembleUpload ''alice'' ''u1'' w2 = Inr (s, [1, 2, 3, 4, 5], w'))
          \<and> (\<exists>res w3. finalizeUpload ''f1'' ''alice'' ''u1'' w2 = Inr (res, w3)
                \<and> publicStorage w3 (fr_storageKey res) = Some [1, 2, 3, 4, 5])
          \<and> (\<exists>res w3. finalizeUploadRedis ''lbl'' ''f1'' ''alice'' ''u1'' w2 = Inr (res, w3)
                \<and> publicStorage w3 (fr_storageKey res) = Some [1, 2, 3, 4, 5]))"
proof -
  have h1: "0 < CHUNK smallLimits" by (simp add: smallLimits_def)
  have h2: "fileSize demoInput = int (length demoFile)" by (simp add: demoInput_def demoFile_def)
  have h4: "distinct [2, 0, 1::nat]" by simp
  have ups: "map (\<lambda>i. (int i, splitFile (nat (CHUNK smallLimits)) demoFile ! i)) [2, 0, 1]
               = [(2, [5]), (0, [1, 2]), (1, [3, 4])]"
    by (simp add: demo_split)
  have inp: "isSecure demoInput = False" "mimeType demoInput = ''application/pdf''"
    by (simp_all add: demoInput_def)
  have df: "demoFile = [1, 2, 3, 4, 5]" by (simp add: demoFile_def)
  from assembly_order_invariant [OF h1 h2 disjI1 [OF demo_init] h4 demo_order, of "''f1''" "''lbl''"]
  have "\<exists>w2. uploadChunks smallLimits ''u1'' [(2, [5]), (0, [1, 2]), (1, [3, 4])] openedWorld = Inr w2
          \<and> (\<exists>s w'. assembleUpload ''alice'' ''u1'' w2 = Inr (s, demoFile, w'))
          \<and> (\<exists>res w3. finalizeUpload ''f1'' ''alice'' ''u1'' w2 = Inr (res, w3)
                \<and> publicStorage w3 (fr_storageKey res) = Some demoFile)
          \<and> (\<exists>res w3. finalizeUploadRedis ''lbl'' ''f1'' ''alice'' ''u1'' w2 = Inr (res, w3)
                \<and> publicStorage w3 (fr_storageKey res) = Some demoFile)"
    unfolding ups inp by (simp del: uploadChunks.simps)
  then have "\<exists>w2. uploadChunks smallLimits ''u1'' [(2, [5]), (0, [1, 2]), (1, [3, 4])] openedWorld = Inr w2
          \<and> (\<exists>s w'. assembleUpload ''alice'' ''u1'' w2 = Inr (s, [1, 2, 3, 4, 5], w'))
          \<and> (\<exists>res w3. finalizeUpload ''f1'' ''alice'' ''u1'' w2 = Inr (res, w3)
                \<and> publicStorage w3 (fr_storageKey res) = Some [1, 2, 3, 4, 5])
          \<and> (\<exists>res w3. finalizeUploadRedis ''lbl'' ''f1'' ''alice'' ''u1'' w2 = Inr (res, w3)
                \<and> publicStorage w3 (fr_storageKey res) = Some [1, 2, 3, 4, 5])"
    unfolding df .
  with h1 h2 demo_init h4 demo_order show ?thesis by blast
qed

lemma openedWorld_session:
  "uploadSessions openedWorld ''u1'' = Some (partialSession\<lparr> receivedChunks := [] \<rparr>)"
  by (simp add: openedWorld_def initUpload_def smallLimits_def demoInput_def demoWorld_def
      emptyWorld_def mathCeilDiv_def Let_def partialSession_def pathJoin_def tmpdir_def)

lemma partial_upload:
  "uploadChunk smallLimits ''u1'' 0 [1, 2] openedWorld
     = Inr (\<lparr> received = 1, total = 3 \<rparr>, partialWorld)"
  unfolding partialWorld_def
  using uploadChunk_ok [OF openedWorld_session, of 0 "[1, 2]" smallLimits]
  by (simp add: partialSession_def smallLimits_def setAdd_def)

lemma partialWorld_session: "uploadSessions partialWorld ''u1'' = Some partialSession"
  using uploadChunk_Inr [OF partial_upload] openedWorld_session
  by (auto simp: partialSession_def setAdd_def)

lemma partialWorld_inv: "sessionInv partialWorld partialSession"
  using uploadChunk_sessionInv [OF openedWorld_session _ partial_upload]
     partialWorld_session
  by (simp add: sessionInv_def partialSession_def)

lemma toString_1: "toString 1 = ''1''" "toString 3 = ''3''"
  by (simp_all add: toString_def dec.simps digitChar_def)

theorem finalize_completeness_witness:
  "uploadSessions partialWorld ''u1'' = Some partialSession
   \<and> sessionInv partialWorld partialSession
   \<and> userId partialSession = ''alice''
   \<and> set (receivedChunks partialSession) \<noteq> {0..<totalChunks partialSession}
   \<and> finalizeUpload ''f1'' ''alice'' ''u1'' partialWorld
        = Inl (AppError ''Missing chunks. Received 1/3'' 400)
   \<and> finalizeUpload ''f1'' ''bob'' ''u1'' partialWorld = Inl (AppError ''Access denied'' 403)"
proof -
  have ne: "set (receivedChunks partialSession) \<noteq> {0..<totalChunks partialSession}"
  proof
    assume "set (receivedChunks partialSession) = {0..<totalChunks partialSession}"
    then have "(1::int) \<in> set (receivedChunks partialSession)" by (simp add: partialSession_def)
    then show False by (simp add: partialSession_def)
  qed
  have u: "userId partialSession = ''alice''" by (simp add: partialSession_def)
  have c: "card (set (receivedChunks partialSession)) = 1" by (simp add: partialSession_def)
  have t: "totalChunks partialSession = 3" by (simp add: partialSession_def)
  from finalize_completeness [OF partialWorld_session partialWorld_inv, of "''alice''" "''f1''"] ne u
  have a: "finalizeUpload ''f1'' ''alice'' ''u1'' partialWorld
        = Inl (AppError ''Missing chunks. Received 1/3'' 400)"
    by (simp add: c t toString_1)
  from finalize_completeness [OF partialWorld_session partialWorld_inv, of "''bob''" "''f1''"] u
  have b: "finalizeUpload ''f1'' ''bob'' ''u1'' partialWorld = Inl (AppError ''Access denied'' 403)"
    by simp
  from partialWorld_session partialWorld_inv u ne a b show ?thesis by blast
qed



subsection \<open>Checks the chunked service does not make\<close>

lemma demoWorld_part:
  "parts demoWorld ''p1'' = Some \<lparr> c_id = ''c1'', instructorId = ''alice'', isFree = False \<rparr>"
  by (simp add: demoWorld_def emptyWorld_def)

text \<open>
  C9.  The chunk invariant is not enforced: \<open>uploadChunk\<close> computes
  \<open>expectedChunkSize\<close> and compares only with the ceiling.  A one-byte chunk at index 0
  of a three-chunk, 12 MB upload is accepted.
\<close>

theorem short_chunk_accepted:
  "(0::int) < totalChunks bigInput - 1
   \<and> int (length [7::8 word]) \<noteq> CHUNK UPLOAD_LIMITS
   \<and> (case initUpload UPLOAD_LIMITS ''u1'' ''alice'' bigInput demoWorld of
        Inl e \<Rightarrow> Inl e
      | Inr (i, w1) \<Rightarrow> map_sum id fst (uploadChunk UPLOAD_LIMITS i 0 [7] w1))
     = Inr \<lparr> received = 1, total = 3 \<rparr>"
  by (simp add: initUpload_def uploadChunk_def bigInput_def UPLOAD_LIMITS_def demoWorld_part
      mathCeilDiv_def Let_def setAdd_def)

lemma chunk_too_large_rejected:
  assumes "uploadSessions w upId = Some s" "0 \<le> k" "k < totalChunks s" "CHUNK L < int (length chunk)"
  shows "uploadChunk L upId k chunk w = Inl (AppError ''Chunk too large'' 400)"
  using assms by (simp add: uploadChunk_def Let_def)

text \<open>
  C3.  The in-memory chunked service does not force the secure path: a \<open>.docx\<close> upload
  finalized with \<open>isSecure = false\<close> is created COMPLETED with \<open>isSecure = false\<close> and
  no job is queued.
\<close>

theorem docx_published_directly:
  "mimeType docxInput \<noteq> ''application/pdf''
   \<and> map_sum id (\<lambda>(rows, jobs). (map (\<lambda>r. (renderStatus r, pf_isSecure r)) rows, jobs))
        (chunkedRun finalizeUpload docxInput [1, 2, 3])
      = Inr ([(COMPLETED, False)], [])"
proof -
  have i: "initUpload UPLOAD_LIMITS ''u1'' ''alice'' docxInput demoWorld
      = Inr (''u1'', demoWorld\<lparr> uploadSessions := (uploadSessions demoWorld)(''u1'' \<mapsto>
           \<lparr> filename = ''notes.docx'', fileSize = 3, totalChunks = 1, mimeType = docxMime,
             partId = ''p1'', isSecure = False, uploadId = ''u1'', receivedChunks = [],
             tempDir = ''/tmp/lms-chunked-u1'', userId = ''alice'' \<rparr>) \<rparr>)"
    by (simp add: initUpload_def docxInput_def UPLOAD_LIMITS_def demoWorld_part
        mathCeilDiv_def Let_def pathJoin_def tmpdir_def)
  show ?thesis
    unfolding chunkedRun_def i
    by (simp add: uploadChunk_def UPLOAD_LIMITS_def Let_def setAdd_def finalizeUpload_def
        assembleUpload_def assembleLoop.simps publishDirect_def cleanupSession_def
        publishedRow_def docxInput_def docxMime_def demoWorld_def emptyWorld_def)
qed

text \<open>The sibling paths do force it.\<close>

lemma uploadLessonPdf_forces_secure:
  assumes "mimetype file \<noteq> ''application/pdf''"
    and "uploadLessonPdf fileId uid lessonId file ttl sec w = Inr (res, w')"
  shows "res = Queued fileId
       \<and> (\<exists>row. partFiles w' = partFiles w @ [row] \<and> pf_id row = fileId
              \<and> renderStatus row = PROCESSING \<and> pf_isSecure row \<and> storageKey row = [])
       \<and> (\<exists>job. pdfQueue w' = pdfQueue w @ [(''watermark-pdf'', StorageJob job)]
              \<and> partFileId job = fileId)"
  using assms
  by (auto simp: uploadLessonPdf_def Let_def split: if_splits option.splits sum.splits)

lemma finalizeUploadRedis_forces_secure:
  assumes "assembleUpload uid upId w = Inr (s, b, w0)" and "mimeType s \<noteq> ''application/pdf''"
    and "finalizeUploadRedis lbl fileId uid upId w = Inr (res, w')"
  shows "fr_storageKey res = []
       \<and> (\<exists>row. partFiles w' = partFiles w @ [row] \<and> pf_id row = fileId
              \<and> renderStatus row = PROCESSING \<and> pf_isSecure row \<and> storageKey row = [])
       \<and> (\<exists>job. pdfQueue w' = pdfQueue w @ [(''watermark-pdf'', StorageJob job)]
              \<and> partFileId job = fileId)"
proof -
  from assembleUpload_Inr [OF assms(1)] have s: "uploadSessions w upId = Some s"
    and w0: "w0 = w\<lparr> files := (files w)(pathJoin (tempDir s) ''assembled'' \<mapsto> b) \<rparr>" by simp_all
  have s0: "uploadSessions w0 upId = Some s" using s w0 by simp
  from assms s0 w0 show ?thesis
    by (auto simp: finalizeUploadRedis_def Let_def cleanupSession_def pendingRow_def)
qed

lemma docx_redis_queued:
  "map_sum id (\<lambda>(rows, jobs). (map (\<lambda>r. (renderStatus r, pf_isSecure r)) rows, length jobs))
        (chunkedRun (finalizeUploadRedis ''lbl'') docxInput [1, 2, 3])
      = Inr ([(PROCESSING, True)], 1)"
proof -
  have i: "initUpload UPLOAD_LIMITS ''u1'' ''alice'' docxInput demoWorld
      = Inr (''u1'', demoWorld\<lparr> uploadSessions := (uploadSessions demoWorld)(''u1'' \<mapsto>
           \<lparr> filename = ''notes.docx'', fileSize = 3, totalChunks = 1, mimeType = docxMime,
             partId = ''p1'', isSecure = False, uploadId = ''u1'', receivedChunks = [],
             tempDir = ''/tmp/lms-chunked-u1'', userId = ''alice'' \<rparr>) \<rparr>)"
    by (simp add: initUpload_def docxInput_def UPLOAD_LIMITS_def demoWorld_part
        mathCeilDiv_def Let_def pathJoin_def tmpdir_def)
  show ?thesis
    unfolding chunkedRun_def i
    by (simp add: uploadChunk_def UPLOAD_LIMITS_def Let_def setAdd_def finalizeUploadRedis_def
        assembleUpload_def assembleLoop.simps cleanupSession_def
        pendingRow_def docxInput_def docxMime_def demoWorld_def emptyWorld_def)
qed


subsection \<open>The steps of the worker\<close>

lemma hasRow_update [simp]:
  "hasRow (w\<lparr> partFiles := map (onId i f) (partFiles w) \<rparr>) j = hasRow w j"
  if "\<And>r. pf_id (f r) = pf_id r"
proof -
  have "map pf_id (map (onId i f) (partFiles w)) = map pf_id (partFiles w)"
    using that by (induction "partFiles w") (auto simp: onId_def)
  then show ?thesis by (simp add: hasRow_def del: map_map)
qed

lemma pf_id_marks [simp]:
  "pf_id (markProcessing r) = pf_id r" "pf_id (markFailed r) = pf_id r"
  "pf_id (markCompleted job p r) = pf_id r"
  by (simp_all add: markProcessing_def markFailed_def markCompleted_def)

lemma hasRow_simps [simp]:
  "hasRow (w\<lparr> privateStorage := s \<rparr>) j = hasRow w j"
  "hasRow (w\<lparr> workerLog := l \<rparr>) j = hasRow w j"
  "hasRow (logLine x w) j = hasRow w j"
  by (simp_all add: hasRow_def logLine_def)

lemma steps_status_fault:
  "statusFault env = Some e \<Longrightarrow> workerSteps env job w = Inl (e, w)"
  by (simp add: workerSteps_def updatePartFile_def)

lemma steps_no_row:
  "statusFault env = None \<Longrightarrow> \<not> hasRow w (partFileId job) \<Longrightarrow>
   workerSteps env job w = Inl (SystemError ''Record to update not found'', w)"
  by (simp add: workerSteps_def updatePartFile_def)

lemma steps_download_fault:
  "statusFault env = None \<Longrightarrow> hasRow w (partFileId job) \<Longrightarrow> downloadFault env = Some e \<Longrightarrow>
   workerSteps env job w = Inl (e, logLine ''SOURCE_NOT_FOUND'' (afterStatus job w))"
  by (simp add: workerSteps_def updatePartFile_def downloadStream_def afterStatus_def)

lemma steps_source_missing:
  "statusFault env = None \<Longrightarrow> hasRow w (partFileId job) \<Longrightarrow> downloadFault env = None \<Longrightarrow>
   privateStorage w (sourceKey job) = None \<Longrightarrow>
   workerSteps env job w
     = Inl (SystemError ''Storage object not found'', logLine ''SOURCE_NOT_FOUND'' (afterStatus job w))"
  by (simp add: workerSteps_def updatePartFile_def downloadStream_def afterStatus_def)

lemma steps_convert_fails:
  "statusFault env = None \<Longrightarrow> hasRow w (partFileId job) \<Longrightarrow> downloadFault env = None \<Longrightarrow>
   privateStorage w (sourceKey job) = Some b \<Longrightarrow> normalized env job b = Inl e \<Longrightarrow>
   workerSteps env job w = Inl (e, logLine ''CONVERT_FAILED'' (afterStatus job w))"
  by (simp add: workerSteps_def updatePartFile_def downloadStream_def afterStatus_def
      normalized_def Let_def split: if_splits)

lemma steps_stamp_fails:
  "statusFault env = None \<Longrightarrow> hasRow w (partFileId job) \<Longrightarrow> downloadFault env = None \<Longrightarrow>
   privateStorage w (sourceKey job) = Some b \<Longrightarrow> normalized env job b = Inr p \<Longrightarrow>
   stamp env p = Inl e \<Longrightarrow>
   workerSteps env job w = Inl (e, afterStatus job w)"
  by (simp add: workerSteps_def updatePartFile_def downloadStream_def afterStatus_def
      normalized_def Let_def split: if_splits)

lemma steps_upload_fault:
  "statusFault env = None \<Longrightarrow> hasRow w (partFileId job) \<Longrightarrow> downloadFault env = None \<Longrightarrow>
   privateStorage w (sourceKey job) = Some b \<Longrightarrow> normalized env job b = Inr p \<Longrightarrow>
   stamp env p = Inr (out, pages) \<Longrightarrow> uploadFault env = Some e \<Longrightarrow>
   workerSteps env job w = Inl (e, logLine ''UPLOAD_FAILED'' (afterStatus job w))"
  by (simp add: workerSteps_def updatePartFile_def downloadStream_def afterStatus_def
      normalized_def Let_def split: if_splits)

lemma steps_complete_fault:
  "statusFault env = None \<Longrightarrow> hasRow w (partFileId job) \<Longrightarrow> downloadFault env = None \<Longrightarrow>
   privateStorage w (sourceKey job) = Some b \<Longrightarrow> normalized env job b = Inr p \<Longrightarrow>
   stamp env p = Inr (out, pages) \<Longrightarrow> uploadFault env = None \<Longrightarrow> completeFault env = Some e \<Longrightarrow>
   workerSteps env job w = Inl (e, logLine ''DB_UPDATE_FAILED'' (afterUpload job out w))"
  by (simp add: workerSteps_def updatePartFile_def downloadStream_def afterStatus_def
      afterUpload_def normalized_def Let_def split: if_splits)

lemma steps_done:
  "statusFault env = None \<Longrightarrow> hasRow w (partFileId job) \<Longrightarrow> downloadFault env = None \<Longrightarrow>
   privateStorage w (sourceKey job) = Some b \<Longrightarrow> normalized env job b = Inr p \<Longrightarrow>
   stamp env p = Inr (out, pages) \<Longrightarrow> uploadFault env = None \<Longrightarrow> completeFault env = None \<Longrightarrow>
   workerSteps env job w
     = Inr (case deleteFault env of
              None \<Rightarrow> (afterComplete job out pages w)\<lparr> privateStorage :=
                         (privateStorage (afterComplete job out pages w))(sourceKey job := None) \<rparr>
            | Some e \<Rightarrow> logLine ''Step 9: Failed to delete staged source file''
                         (afterComplete job out pages w))"
  by (simp add: workerSteps_def updatePartFile_def downloadStream_def afterStatus_def
      afterUpload_def afterComplete_def normalized_def Let_def split: if_splits option.splits)



lemma afterStatus_simps [simp]:
  "partFiles (afterStatus job w) = map (onId (partFileId job) markProcessing) (partFiles w)"
  "privateStorage (afterStatus job w) = privateStorage w"
  "workerLog (afterStatus job w) = workerLog w"
  "hasRow (afterStatus job w) j = hasRow w j"
  by (simp_all add: afterStatus_def)

lemma afterUpload_simps [simp]:
  "partFiles (afterUpload job out w) = map (onId (partFileId job) markProcessing) (partFiles w)"
  "privateStorage (afterUpload job out w) = (privateStorage w)(securedPath (partFileId job) \<mapsto> out)"
  "workerLog (afterUpload job out w) = workerLog w"
  "hasRow (afterUpload job out w) j = hasRow w j"
  by (simp_all add: afterUpload_def afterStatus_def)

lemma afterComplete_simps [simp]:
  "partFiles (afterComplete job out pages w)
     = map (onId (partFileId job) (markCompleted job pages))
         (map (onId (partFileId job) markProcessing) (partFiles w))"
  "privateStorage (afterComplete job out pages w)
     = (privateStorage w)(securedPath (partFileId job) \<mapsto> out)"
  "workerLog (afterComplete job out pages w) = workerLog w"
  by (simp_all add: afterComplete_def)

lemma logLine_simps [simp]:
  "partFiles (logLine l w) = partFiles w"
  "privateStorage (logLine l w) = privateStorage w"
  "workerLog (logLine l w) = workerLog w @ [l]"
  by (simp_all add: logLine_def)

text \<open>Every run of the steps is one of two kinds.\<close>

lemma workerSteps_cases:
  obtains (throws) e w' where
      "workerSteps env job w = Inl (e, w')" "\<And>e'. stepThrows env job w e' \<longleftrightarrow> e' = e"
      "partFiles w' = partFiles w
         \<or> hasRow w (partFileId job)
           \<and> partFiles w' = map (onId (partFileId job) markProcessing) (partFiles w)"
      "hasRow w' (partFileId job) = hasRow w (partFileId job)"
      "count_list (workerLog w') ''CRITICAL ERROR'' = count_list (workerLog w) ''CRITICAL ERROR''"
  | (completes) b p out pages w' where
      "workerSteps env job w = Inr w'"
      "statusFault env = None" "hasRow w (partFileId job)" "downloadFault env = None"
      "privateStorage w (sourceKey job) = Some b" "normalized env job b = Inr p"
      "stamp env p = Inr (out, pages)" "uploadFault env = None" "completeFault env = None"
      "partFiles w' = map (onId (partFileId job) (markCompleted job pages))
                        (map (onId (partFileId job) markProcessing) (partFiles w))"
      "privateStorage w' =
         (if deleteFault env = None
          then ((privateStorage w)(securedPath (partFileId job) \<mapsto> out))(sourceKey job := None)
          else (privateStorage w)(securedPath (partFileId job) \<mapsto> out))"
      "count_list (workerLog w') ''CRITICAL ERROR'' = count_list (workerLog w) ''CRITICAL ERROR''"
      "\<And>e'. \<not> stepThrows env job w e'"
proof (cases "statusFault env")
  case (Some e)
  from steps_status_fault [OF Some] Some show ?thesis
    by (intro throws [of e w]) (auto simp: stepThrows_def)
next
  case sNone: None
  show ?thesis
  proof (cases "hasRow w (partFileId job)")
    case False
    from steps_no_row [OF sNone False] sNone False show ?thesis
      by (intro throws [of "SystemError ''Record to update not found''" w])
         (auto simp: stepThrows_def)
  next
    case known: True
    show ?thesis
    proof (cases "downloadFault env")
      case (Some e)
      from steps_download_fault [OF sNone known Some] sNone known Some show ?thesis
        by (intro throws [of e "logLine ''SOURCE_NOT_FOUND'' (afterStatus job w)"])
           (auto simp: stepThrows_def)
    next
      case dNone: None
      show ?thesis
      proof (cases "privateStorage w (sourceKey job)")
        case None
        from steps_source_missing [OF sNone known dNone None] sNone known dNone None show ?thesis
          by (intro throws [of "SystemError ''Storage object not found''"
                "logLine ''SOURCE_NOT_FOUND'' (afterStatus job w)"])
             (auto simp: stepThrows_def)
      next
        case src: (Some b)
        show ?thesis
        proof (cases "normalized env job b")
          case (Inl e)
          from steps_convert_fails [OF sNone known dNone src Inl] sNone known dNone src Inl
          show ?thesis
            by (intro throws [of e "logLine ''CONVERT_FAILED'' (afterStatus job w)"])
               (auto simp: stepThrows_def)
        next
          case norm: (Inr p)
          show ?thesis
          proof (cases "stamp env p")
            case (Inl e)
            from steps_stamp_fails [OF sNone known dNone src norm Inl]
              sNone known dNone src norm Inl
            show ?thesis
              by (intro throws [of e "afterStatus job w"]) (auto simp: stepThrows_def)
          next
            case (Inr y)
            obtain out pages where st: "stamp env p = Inr (out, pages)"
              using Inr by (cases y) simp
            show ?thesis
            proof (cases "uploadFault env")
              case (Some e)
              from steps_upload_fault [OF sNone known dNone src norm st Some]
                sNone known dNone src norm st Some
              show ?thesis
                by (intro throws [of e "logLine ''UPLOAD_FAILED'' (afterStatus job w)"])
                   (auto simp: stepThrows_def)
            next
              case uNone: None
              show ?thesis
              proof (cases "completeFault env")
                case (Some e)
                from steps_complete_fault [OF sNone known dNone src norm st uNone Some]
                  sNone known dNone src norm st uNone Some
                show ?thesis
                  by (intro throws [of e "logLine ''DB_UPDATE_FAILED'' (afterUpload job out w)"])
                     (auto simp: stepThrows_def)
              next
                case cNone: None
                note fin = steps_done [OF sNone known dNone src norm st uNone cNone]
                have nt: "\<And>e'. \<not> stepThrows env job w e'"
                  using sNone known dNone src norm st uNone cNone by (simp add: stepThrows_def)
                show ?thesis
                  by (rule completes [OF fin sNone known dNone src norm st uNone cNone _ _ _ nt])
                     (simp_all split: option.splits)
              qed
            qed
          qed
        qed
      qed
    qed
  qed
qed

lemma workerSteps_throws_iff:
  "(\<exists>w'. workerSteps env job w = Inl (e, w')) \<longleftrightarrow> stepThrows env job w e"
proof (cases rule: workerSteps_cases [of env job w])
  case (throws e0 w0)
  from throws(1) throws(2) [of e] show ?thesis by auto
next
  case (completes b p out pages w0)
  from completes(1) completes(13) [of e] show ?thesis by simp
qed

lemma pdfWorker_throws:
  assumes "workerSteps env job w = Inl (e, w')"
  shows "pdfWorker env job w =
     (Some e, if failedFault env = None \<and> hasRow w' (partFileId job)
              then (logLine ''CRITICAL ERROR'' w')\<lparr> partFiles :=
                      map (onId (partFileId job) markFailed) (partFiles w') \<rparr>
              else logLine ''DB_UPDATE_FAILED'' (logLine ''CRITICAL ERROR'' w'))"
  using assms
  by (cases "failedFault env") (simp_all add: pdfWorker_def updatePartFile_def Let_def)

lemma pdfWorker_completes:
  "workerSteps env job w = Inr w' \<Longrightarrow> pdfWorker env job w = (None, w')"
  by (simp add: pdfWorker_def)

lemma pdfWorker_throws_iff: "fst (pdfWorker env job w) = Some e \<longleftrightarrow> stepThrows env job w e"
proof (cases rule: workerSteps_cases [of env job w])
  case (throws e0 w0)
  from pdfWorker_throws [OF throws(1)] throws(2) [of e] show ?thesis by auto
next
  case (completes b p out pages w0)
  from pdfWorker_completes [OF completes(1)] completes(13) [of e] show ?thesis by simp
qed

lemma renderStatus_onId_failed:
  "pf_id (onId i markFailed r) = i \<Longrightarrow> renderStatus (onId i markFailed r) = FAILED"
  by (simp add: onId_def markFailed_def split: if_splits)

lemma failed_rows:
  "\<forall>r\<in>set (map (onId i markFailed) rows). pf_id r = i \<longrightarrow> renderStatus r = FAILED"
  by (simp add: renderStatus_onId_failed)

lemma pdfWorker_failure:
  assumes "stepThrows env job w e"
  shows "fst (pdfWorker env job w) = Some e
    \<and> count_list (workerLog (snd (pdfWorker env job w))) ''CRITICAL ERROR''
        = count_list (workerLog w) ''CRITICAL ERROR'' + 1
    \<and> (if failedFault env = None \<and> hasRow w (partFileId job)
        then \<forall>r\<in>set (partFiles (snd (pdfWorker env job w))).
               pf_id r = partFileId job \<longrightarrow> renderStatus r = FAILED
        else (partFiles (snd (pdfWorker env job w)) = partFiles w
              \<or> partFiles (snd (pdfWorker env job w))
                  = map (onId (partFileId job) markProcessing) (partFiles w))
           \<and> last (workerLog (snd (pdfWorker env job w))) = ''DB_UPDATE_FAILED'')"
proof (cases rule: workerSteps_cases [of env job w])
  case (throws e0 w0)
  with assms have e: "e0 = e" by simp
  note pw = pdfWorker_throws [OF throws(1)]
  have f: "fst (pdfWorker env job w) = Some e" using pw e by simp
  have c: "count_list (workerLog (snd (pdfWorker env job w))) ''CRITICAL ERROR''
        = count_list (workerLog w) ''CRITICAL ERROR'' + 1"
    using pw throws(5) by simp
  show ?thesis
  proof (cases "failedFault env = None \<and> hasRow w (partFileId job)")
    case True
    with throws(4) have sw: "snd (pdfWorker env job w)
       = (logLine ''CRITICAL ERROR'' w0)\<lparr> partFiles :=
                      map (onId (partFileId job) markFailed) (partFiles w0) \<rparr>"
      using pw by simp
    have "\<forall>r\<in>set (partFiles (snd (pdfWorker env job w))).
               pf_id r = partFileId job \<longrightarrow> renderStatus r = FAILED"
      unfolding sw using failed_rows [of "partFileId job" "partFiles w0"] by simp
    then show ?thesis unfolding if_P [OF True] using c f by blast
  next
    case False
    with throws(4) have sw: "snd (pdfWorker env job w)
       = logLine ''DB_UPDATE_FAILED'' (logLine ''CRITICAL ERROR'' w0)"
      using pw by auto
    from throws(3) have "partFiles (snd (pdfWorker env job w)) = partFiles w
              \<or> partFiles (snd (pdfWorker env job w))
                  = map (onId (partFileId job) markProcessing) (partFiles w)"
      unfolding sw by auto
    moreover have "last (workerLog (snd (pdfWorker env job w))) = ''DB_UPDATE_FAILED''"
      unfolding sw by simp
    ultimately show ?thesis unfolding if_not_P [OF False] using c f by blast
  qed
next
  case (completes b p out pages w0)
  with assms show ?thesis by simp
qed


subsection \<open>The rows after a run of the worker\<close>

lemma onId_id: "map (onId i id) rows = rows"
  by (induction rows) (simp_all add: onId_def)

lemma onId_comp:
  "map (onId i f) (map (onId i markProcessing) rows) = map (onId i (f \<circ> markProcessing)) rows"
  by (induction rows) (simp_all add: onId_def)

lemma pdfWorker_rows:
  "\<exists>f. partFiles (snd (pdfWorker env job w)) = map (onId (partFileId job) f) (partFiles w)
     \<and> (f = id \<or> f = markProcessing \<or> f = markFailed \<or> f = markFailed \<circ> markProcessing
         \<or> (\<exists>p. fst (pdfWorker env job w) = None \<and> f = markCompleted job p \<circ> markProcessing))"
proof (cases rule: workerSteps_cases [of env job w])
  case (throws e w0)
  note pw = pdfWorker_throws [OF throws(1)]
  show ?thesis
  proof (cases "failedFault env = None \<and> hasRow w0 (partFileId job)")
    case True
    then have rows: "partFiles (snd (pdfWorker env job w))
        = map (onId (partFileId job) markFailed) (partFiles w0)"
      using pw by simp
    from throws(3) show ?thesis
    proof
      assume "partFiles w0 = partFiles w"
      with rows show ?thesis by auto
    next
      assume "hasRow w (partFileId job)
           \<and> partFiles w0 = map (onId (partFileId job) markProcessing) (partFiles w)"
      with rows have "partFiles (snd (pdfWorker env job w))
        = map (onId (partFileId job) (markFailed \<circ> markProcessing)) (partFiles w)"
        by (simp only: onId_comp)
      then show ?thesis by blast
    qed
  next
    case False
    then have rows: "partFiles (snd (pdfWorker env job w)) = partFiles w0"
      using pw by auto
    from throws(3) show ?thesis
    proof
      assume "partFiles w0 = partFiles w"
      with rows have "partFiles (snd (pdfWorker env job w))
         = map (onId (partFileId job) id) (partFiles w)"
        by (simp add: onId_id)
      then show ?thesis by blast
    next
      assume "hasRow w (partFileId job)
           \<and> partFiles w0 = map (onId (partFileId job) markProcessing) (partFiles w)"
      with rows show ?thesis by auto
    qed
  qed
next
  case (completes b p out pages w0)
  have "partFiles w0
      = map (onId (partFileId job) (markCompleted job pages \<circ> markProcessing)) (partFiles w)"
    unfolding completes(10) by (rule onId_comp)
  with pdfWorker_completes [OF completes(1)]
  have "partFiles (snd (pdfWorker env job w))
      = map (onId (partFileId job) (markCompleted job pages \<circ> markProcessing)) (partFiles w)"
    and "fst (pdfWorker env job w) = None"
    by simp_all
  then show ?thesis by blast
qed

lemma row_after:
  assumes "r' \<in> set (partFiles (snd (pdfWorker env job w)))"
  shows "\<exists>r\<in>set (partFiles w).
           r' = r
         \<or> pf_id r = partFileId job
            \<and> (r' = markProcessing r \<or> r' = markFailed r \<or> r' = markFailed (markProcessing r)
                \<or> (\<exists>p. r' = markCompleted job p (markProcessing r)))"
proof -
  from pdfWorker_rows [of env job w] obtain f where
    rows: "partFiles (snd (pdfWorker env job w)) = map (onId (partFileId job) f) (partFiles w)"
    and f: "f = id \<or> f = markProcessing \<or> f = markFailed \<or> f = markFailed \<circ> markProcessing
         \<or> (\<exists>p. fst (pdfWorker env job w) = None \<and> f = markCompleted job p \<circ> markProcessing)"
    by blast
  from assms rows obtain r where r: "r \<in> set (partFiles w)" "r' = onId (partFileId job) f r"
    by auto
  show ?thesis
  proof (cases "pf_id r = partFileId job")
    case False
    with r show ?thesis by (auto simp: onId_def)
  next
    case True
    with r have "r' = f r" by (simp add: onId_def)
    with f have "r' = r \<or> r' = markProcessing r \<or> r' = markFailed r
        \<or> r' = markFailed (markProcessing r)
        \<or> (\<exists>p. r' = markCompleted job p (markProcessing r))"
      by auto
    with r(1) True show ?thesis by blast
  qed
qed

lemma marks_completedHasKey:
  "completedHasKey (markProcessing r)" "completedHasKey (markFailed r)"
  "completedHasKey (markCompleted job p r)"
  by (simp_all add: completedHasKey_def markProcessing_def markFailed_def markCompleted_def
      securedPath_def)

lemma marks_keyIffCompleted:
  "storageKey r = [] \<Longrightarrow> keyIffCompleted (markProcessing r)"
  "storageKey r = [] \<Longrightarrow> keyIffCompleted (markFailed r)"
  "keyIffCompleted (markCompleted job p r)"
  by (simp_all add: keyIffCompleted_def markProcessing_def markFailed_def markCompleted_def
      securedPath_def)

lemma storageKey_markProcessing [simp]: "storageKey (markProcessing r) = storageKey r"
  by (simp add: markProcessing_def)

lemma pdfWorker_completedHasKey:
  assumes "\<forall>r\<in>set (partFiles w). completedHasKey r"
  shows "\<forall>r\<in>set (partFiles (snd (pdfWorker env job w))). completedHasKey r"
proof
  fix r' assume "r' \<in> set (partFiles (snd (pdfWorker env job w)))"
  from row_after [OF this] assms show "completedHasKey r'"
    by (auto simp: marks_completedHasKey)
qed

lemma pdfWorker_keyIffCompleted:
  assumes "\<forall>r\<in>set (partFiles w). keyIffCompleted r"
    and "\<forall>r\<in>set (partFiles w). pf_id r = partFileId job \<longrightarrow> storageKey r = []"
  shows "\<forall>r\<in>set (partFiles (snd (pdfWorker env job w))). keyIffCompleted r"
proof
  fix r' assume "r' \<in> set (partFiles (snd (pdfWorker env job w)))"
  from row_after [OF this] assms show "keyIffCompleted r'"
    by (auto simp: marks_keyIffCompleted)
qed

lemma partFiles_cleanupSession [simp]: "partFiles (cleanupSession u w) = partFiles w"
  by (simp add: cleanupSession_def split: option.splits)

lemma uploadLessonPdf_row:
  assumes "uploadLessonPdf fileId uid lessonId file ttl sec w = Inr (res, w')"
  shows "\<exists>row. partFiles w' = partFiles w @ [row] \<and> keyIffCompleted row
           \<and> pageCount row = 0"
  using assms
  by (auto simp: uploadLessonPdf_def Let_def keyIffCompleted_def publicKey_def defaultPageCount_def
      split: if_splits option.splits sum.splits)

lemma finalizeUpload_row:
  assumes "finalizeUpload fileId uid upId w = Inr (res, w')"
  shows "\<exists>row. partFiles w' = partFiles w @ [row] \<and> keyIffCompleted row
           \<and> pageCount row = 0"
proof -
  from assms obtain s b w0 where a: "assembleUpload uid upId w = Inr (s, b, w0)"
    by (auto simp: finalizeUpload_def split: sum.splits)
  from assembleUpload_Inr [OF a] have pf: "partFiles w0 = partFiles w" by simp
  from assms a pf show ?thesis
    by (cases "isSecure s")
       (auto simp: finalizeUpload_def Let_def publishDirect_def pendingRow_def publishedRow_def
          keyIffCompleted_def publicKey_def defaultPageCount_def)
qed

lemma finalizeUploadRedis_row:
  assumes "finalizeUploadRedis lbl fileId uid upId w = Inr (res, w')"
  shows "\<exists>row. partFiles w' = partFiles w @ [row] \<and> keyIffCompleted row
           \<and> pageCount row = 0"
proof -
  from assms obtain s b w0 where a: "assembleUpload uid upId w = Inr (s, b, w0)"
    by (auto simp: finalizeUploadRedis_def split: sum.splits)
  from assembleUpload_Inr [OF a] have pf: "partFiles w0 = partFiles w" by simp
  from assms a pf show ?thesis
    by (cases "isSecure s \<or> mimeType s \<noteq> ''application/pdf''")
       (auto simp: finalizeUploadRedis_def Let_def publishDirect_def pendingRow_def
          publishedRow_def keyIffCompleted_def publicKey_def defaultPageCount_def)
qed


subsection \<open>The sample run\<close>

text \<open>
  The path functions on some names: separators at the end of a name are skipped, a dot
  at the start of the base name starts no extension, and \<open>..\<close> has none.
\<close>

lemma pathExtname_samples:
  "pathExtname ''notes.pdf'' = ''.pdf''"
  "pathExtname ''a.pdf/'' = ''.pdf''"
  "pathExtname ''dir.d/a.tar.gz//'' = ''.gz''"
  "pathExtname ''.bashrc'' = []"
  "pathExtname ''a/..'' = []"
  "pathExtname ''/..'' = []"
  "pathExtname ''...'' = ''.''"
  "pathExtname ''a.'' = ''.''"
  "pathExtname ''/'' = []"
  "pathExtname [] = []"
  by (simp_all add: pathExtname_def lastDotExt_def pathBase_def Let_def)

lemma pathParseName_samples:
  "pathParseName ''a.txt/'' = ''a''"
  "pathParseName ''/x/y.tar.gz'' = ''y.tar''"
  "pathParseName ''.bashrc'' = ''.bashrc''"
  "pathParseName ''..'' = ''..''"
  "pathParseName ''a/..'' = ''..''"
  "pathParseName ''/..'' = ''.''"
  "pathParseName ''/'' = []"
  "pathParseName [] = []"
  by (simp_all add: pathParseName_def lastDotExt_def pathBase_def Let_def)

text \<open>
  A source of an unlisted type takes the extension of its name, in lower case, also when
  the name ends with a separator: such a source named \<open>a.pdf/\<close> is not converted.
\<close>

lemma inferExtension_samples:
  "inferExtension ''application/x-foo'' ''a.pdf/'' = ''.pdf''"
  "inferExtension ''application/x-foo'' ''a'' = ''.bin''"
  "inferExtension ''application/pdf'' ''a.docx'' = ''.pdf''"
  by (simp_all add: inferExtension_def pathExtname_def lastDotExt_def pathBase_def Let_def
      toLowerCase_def lowerChar_def)

lemma inferExtension_upper: "inferExtension ''application/x-foo'' ''A.PDF'' = ''.pdf''"
  by code_simp

lemma parse_notes: "pathParseName ''notes.pdf'' = ''notes''"
  by (simp add: pathParseName_def lastDotExt_def pathBase_def Let_def)

lemma staged_upload:
  "uploadLessonPdf ''f1'' ''alice'' ''p1'' demoDoc None Undefined demoWorld
     = Inr (Queued ''f1'', stagedWorld)"
  unfolding stagedWorld_def
  by (simp add: uploadLessonPdf_def demoDoc_def demoWorld_def emptyWorld_def allowedMimes_def
      getExtension_def Let_def)

lemma staged_fields:
  "partFiles stagedWorld = [stagedRow]"
  "privateStorage stagedWorld = [''/staging/pdf-input/f1/source.pdf'' \<mapsto> [1, 2, 3]]"
  "pdfQueue stagedWorld = [(''watermark-pdf'', StorageJob demoJob)]"
  "parts stagedWorld = parts demoWorld" "users stagedWorld = users demoWorld"
  "enrollments stagedWorld = enrollments demoWorld"
  "enrollmentPartLocks stagedWorld = enrollmentPartLocks demoWorld"
  "workerLog stagedWorld = []"
  unfolding stagedWorld_def
  by (simp_all add: uploadLessonPdf_def demoDoc_def demoWorld_def emptyWorld_def allowedMimes_def
      getExtension_def Let_def stagedRow_def demoJob_def stagingKey_def getNextOrder_def
      defaultPageCount_def parse_notes)

lemma okEnv_simps [simp]:
  "statusFault okEnv = None" "downloadFault okEnv = None" "uploadFault okEnv = None"
  "completeFault okEnv = None" "deleteFault okEnv = None" "failedFault okEnv = None"
  "convert okEnv = Inr" "stamp okEnv b = Inr (b @ [87], 3)"
  by (simp_all add: okEnv_def)

lemma demoJob_simps [simp]:
  "sourceKey demoJob = ''/staging/pdf-input/f1/source.pdf''" "partFileId demoJob = ''f1''"
  "normalized env demoJob b = Inr b" "securedPath ''f1'' = ''/secured/f1.pdf''"
  "renderedTitle demoJob = ''notes.pdf''"
  by (simp_all add: demoJob_def normalized_def inferExtension_def securedPath_def
      renderedTitle_def parse_notes)

lemma first_run:
  "workerSteps okEnv demoJob stagedWorld
     = Inr ((afterComplete demoJob [1, 2, 3, 87] 3 stagedWorld)\<lparr> privateStorage :=
              (privateStorage (afterComplete demoJob [1, 2, 3, 87] 3 stagedWorld))
                (sourceKey demoJob := None) \<rparr>)"
  using steps_done [of okEnv stagedWorld demoJob "[1, 2, 3]" "[1, 2, 3]" "[1, 2, 3, 87]" 3]
  by (simp add: staged_fields hasRow_def stagedRow_def)

lemma renderedWorld_eq:
  "renderedWorld = (afterComplete demoJob [1, 2, 3, 87] 3 stagedWorld)\<lparr> privateStorage :=
              (privateStorage (afterComplete demoJob [1, 2, 3, 87] 3 stagedWorld))
                (sourceKey demoJob := None) \<rparr>"
  by (simp add: renderedWorld_def pdfWorker_completes [OF first_run])

lemma rendered_fields:
  "fst (pdfWorker okEnv demoJob stagedWorld) = None"
  "partFiles renderedWorld = [renderedRow]"
  "privateStorage renderedWorld = [''/secured/f1.pdf'' \<mapsto> [1, 2, 3, 87]]"
  "parts renderedWorld = parts demoWorld" "users renderedWorld = users demoWorld"
  "enrollments renderedWorld = enrollments demoWorld"
  "enrollmentPartLocks renderedWorld = enrollmentPartLocks demoWorld"
  "workerLog renderedWorld = []"
  by (simp_all add: renderedWorld_eq pdfWorker_completes [OF first_run] staged_fields
      stagedRow_def renderedRow_def onId_def markProcessing_def markCompleted_def
      afterComplete_def afterUpload_def afterStatus_def fun_upd_twist)

lemma second_run:
  "workerSteps okEnv demoJob renderedWorld
     = Inl (SystemError ''Storage object not found'',
            logLine ''SOURCE_NOT_FOUND'' (afterStatus demoJob renderedWorld))"
  using steps_source_missing [of okEnv renderedWorld demoJob]
  by (simp add: rendered_fields hasRow_def renderedRow_def)

lemma redelivered_fields:
  "fst (pdfWorker okEnv demoJob renderedWorld) = Some (SystemError ''Storage object not found'')"
  "partFiles redeliveredWorld = [renderedRow\<lparr> renderStatus := FAILED \<rparr>]"
  "privateStorage redeliveredWorld = [''/secured/f1.pdf'' \<mapsto> [1, 2, 3, 87]]"
  "parts redeliveredWorld = parts demoWorld" "users redeliveredWorld = users demoWorld"
  "enrollments redeliveredWorld = enrollments demoWorld"
  "enrollmentPartLocks redeliveredWorld = enrollmentPartLocks demoWorld"
  "workerLog redeliveredWorld = [''SOURCE_NOT_FOUND'', ''CRITICAL ERROR'']"
  by (simp_all add: redeliveredWorld_def pdfWorker_throws [OF second_run] rendered_fields
      hasRow_def renderedRow_def onId_def markProcessing_def markFailed_def logLine_def
      afterStatus_def)


subsection \<open>Failure handling and the storage key\<close>

text \<open>
  C6.  The handler throws \<open>e\<close> to the queue exactly when the first failing step among
  1 to 7 throws \<open>e\<close> (the deletion of the staged source never fails the job).  Then
  the failure is logged once at the top level, and the asset is marked FAILED if that
  write goes through; if it does not, the rows stay as the steps left them and the
  failed write is only logged.
\<close>

theorem failure_caught_once:
  "(fst (pdfWorker env job w) = Some e \<longleftrightarrow> stepThrows env job w e)
   \<and> (stepThrows env job w e \<longrightarrow>
        count_list (workerLog (snd (pdfWorker env job w))) ''CRITICAL ERROR''
          = count_list (workerLog w) ''CRITICAL ERROR'' + 1
      \<and> (if failedFault env = None \<and> hasRow w (partFileId job)
          then \<forall>r\<in>set (partFiles (snd (pdfWorker env job w))).
                 pf_id r = partFileId job \<longrightarrow> renderStatus r = FAILED
          else (partFiles (snd (pdfWorker env job w)) = partFiles w
                \<or> partFiles (snd (pdfWorker env job w))
                    = map (onId (partFileId job) markProcessing) (partFiles w))
             \<and> last (workerLog (snd (pdfWorker env job w))) = ''DB_UPDATE_FAILED''))"
  using pdfWorker_throws_iff [of env job w e] pdfWorker_failure [of env job w e] by blast

lemma boom_throws: "stepThrows boomEnv demoJob stagedWorld (SystemError ''boom'')"
  by (simp add: stepThrows_def boomEnv_def staged_fields hasRow_def stagedRow_def)

theorem failure_caught_once_witness:
  "stepThrows boomEnv demoJob stagedWorld (SystemError ''boom'')
   \<and> fst (pdfWorker boomEnv demoJob stagedWorld) = Some (SystemError ''boom'')
   \<and> count_list (workerLog (snd (pdfWorker boomEnv demoJob stagedWorld))) ''CRITICAL ERROR'' = 1
   \<and> failedFault boomEnv = None \<and> hasRow stagedWorld (partFileId demoJob)"
  using failure_caught_once [of boomEnv demoJob stagedWorld "SystemError ''boom''"] boom_throws
  by (simp add: staged_fields boomEnv_def hasRow_def stagedRow_def)


lemma uploadedWorld_fields:
  "uploadSessions uploadedWorld ''u1''
     = Some \<lparr> filename = ''notes.pdf'', fileSize = 3, totalChunks = 1,
              mimeType = ''application/pdf'', partId = ''p1'', isSecure = False,
              uploadId = ''u1'', receivedChunks = [0], tempDir = ''/tmp/lms-chunked-u1'',
              userId = ''alice'' \<rparr>"
  "files uploadedWorld (chunkPath ''/tmp/lms-chunked-u1'' 0) = Some [1, 2, 3]"
  "partFiles uploadedWorld = []"
  by (simp_all add: uploadedWorld_def initUpload_def uploadChunk_def pdfInput_def
      UPLOAD_LIMITS_def demoWorld_part mathCeilDiv_def Let_def setAdd_def pathJoin_def
      tmpdir_def demoWorld_def emptyWorld_def)

lemma uploadedWorld_assembles:
  "assembleUpload ''alice'' ''u1'' uploadedWorld
     = Inr (the (uploadSessions uploadedWorld ''u1''), [1, 2, 3],
            uploadedWorld\<lparr> files := (files uploadedWorld)
               (pathJoin ''/tmp/lms-chunked-u1'' ''assembled'' \<mapsto> [1, 2, 3]) \<rparr>)"
  by (simp add: assembleUpload_def uploadedWorld_fields assembleLoop.simps)

lemma published:
  "finalizeUpload ''f1'' ''alice'' ''u1'' uploadedWorld
     = Inr (\<lparr> fr_storageKey = ''/public/p1/f1/notes.pdf'', assetId = ''f1'' \<rparr>, publishedWorld)"
  unfolding publishedWorld_def
  by (simp add: finalizeUpload_def uploadedWorld_assembles uploadedWorld_fields Let_def
      publishDirect_def publicKey_def)

lemma publishedRedis:
  "finalizeUploadRedis ''lbl'' ''f1'' ''alice'' ''u1'' uploadedWorld
     = Inr (\<lparr> fr_storageKey = ''/public/p1/f1/notes.pdf'', assetId = ''f1'' \<rparr>, publishedWorldRedis)"
  unfolding publishedWorldRedis_def
  by (simp add: finalizeUploadRedis_def uploadedWorld_assembles uploadedWorld_fields Let_def
      publishDirect_def publicKey_def)

lemma staged_inv:
  "\<forall>r\<in>set (partFiles stagedWorld). completedHasKey r"
  "\<forall>r\<in>set (partFiles stagedWorld). keyIffCompleted r"
  "\<forall>r\<in>set (partFiles stagedWorld). pf_id r = partFileId demoJob \<longrightarrow> storageKey r = []"
  by (simp_all add: staged_fields stagedRow_def completedHasKey_def keyIffCompleted_def)





subsection \<open>Redelivery\<close>

lemma ids_onId:
  assumes "\<And>r. pf_id (f r) = pf_id r"
  shows "map pf_id (map (onId i f) rows) = map pf_id rows"
  using assms by (induction rows) (auto simp: onId_def)

lemma recomplete:
  "map (onId i (markCompleted job p))
     (map (onId i markProcessing)
        (map (onId i (markCompleted job p)) (map (onId i markProcessing) rows)))
   = map (onId i (markCompleted job p)) (map (onId i markProcessing) rows)"
  by (induction rows) (simp_all add: onId_def markCompleted_def markProcessing_def)

lemma renderStatus_onId_completed:
  "pf_id (onId i (markCompleted job p) r) = i \<Longrightarrow>
   renderStatus (onId i (markCompleted job p) r) = COMPLETED"
  by (cases "pf_id r = i") (simp_all add: onId_def markCompleted_def)

lemma completed_rows:
  "\<forall>r\<in>set (map (onId i (markCompleted job p)) rows). pf_id r = i \<longrightarrow> renderStatus r = COMPLETED"
  by (simp add: renderStatus_onId_completed)

lemma normalized_cong: "convert env' = convert env \<Longrightarrow> normalized env' job b = normalized env job b"
  by (simp add: normalized_def)

lemma pdfWorker_None:
  assumes "pdfWorker env job w0 = (None, w1)"
  obtains b p out pages where
      "statusFault env = None" "hasRow w0 (partFileId job)" "downloadFault env = None"
      "privateStorage w0 (sourceKey job) = Some b" "normalized env job b = Inr p"
      "stamp env p = Inr (out, pages)"
      "partFiles w1 = map (onId (partFileId job) (markCompleted job pages))
                        (map (onId (partFileId job) markProcessing) (partFiles w0))"
      "privateStorage w1 =
         (if deleteFault env = None
          then ((privateStorage w0)(securedPath (partFileId job) \<mapsto> out))(sourceKey job := None)
          else (privateStorage w0)(securedPath (partFileId job) \<mapsto> out))"
proof (cases rule: workerSteps_cases [of env job w0])
  case (throws e w')
  from pdfWorker_throws [OF throws(1)] assms show ?thesis by simp
next
  case (completes b p out pages w')
  from pdfWorker_completes [OF completes(1)] assms have "w' = w1" by simp
  with completes that show ?thesis by blast
qed

lemma rerun_with_source:
  assumes first: "pdfWorker env job w0 = (None, w1)"
    and env': "statusFault env' = None" "downloadFault env' = None" "uploadFault env' = None"
      "completeFault env' = None" "convert env' = convert env" "stamp env' = stamp env"
    and src: "privateStorage w1 (sourceKey job) = privateStorage w0 (sourceKey job)"
    and apart: "sourceKey job \<noteq> securedPath (partFileId job)"
  shows "\<exists>w2. pdfWorker env' job w1 = (None, w2) \<and> partFiles w2 = partFiles w1
           \<and> privateStorage w2 (securedPath (partFileId job))
               = privateStorage w1 (securedPath (partFileId job))"
proof -
  from first obtain b p out pages where f:
      "hasRow w0 (partFileId job)"
      "privateStorage w0 (sourceKey job) = Some b" "normalized env job b = Inr p"
      "stamp env p = Inr (out, pages)"
      "partFiles w1 = map (onId (partFileId job) (markCompleted job pages))
                        (map (onId (partFileId job) markProcessing) (partFiles w0))"
      "privateStorage w1 =
         (if deleteFault env = None
          then ((privateStorage w0)(securedPath (partFileId job) \<mapsto> out))(sourceKey job := None)
          else (privateStorage w0)(securedPath (partFileId job) \<mapsto> out))"
    by (rule pdfWorker_None) blast
  have ids: "map pf_id (partFiles w1) = map pf_id (partFiles w0)"
    unfolding f(5) by (simp only: ids_onId pf_id_marks)
  have known: "hasRow w1 (partFileId job)" using f(1) ids by (simp add: hasRow_def del: set_map)
  have s1: "privateStorage w1 (sourceKey job) = Some b" using src f(2) by simp
  have n1: "normalized env' job b = Inr p" using normalized_cong [OF env'(5)] f(3) by simp
  have st1: "stamp env' p = Inr (out, pages)" using env'(6) f(4) by simp
  note run = steps_done [OF env'(1) known env'(2) s1 n1 st1 env'(3) env'(4)]
  define w2 where "w2 = (case deleteFault env' of
              None \<Rightarrow> (afterComplete job out pages w1)\<lparr> privateStorage :=
                         (privateStorage (afterComplete job out pages w1))(sourceKey job := None) \<rparr>
            | Some e \<Rightarrow> logLine ''Step 9: Failed to delete staged source file''
                         (afterComplete job out pages w1))"
  have r: "pdfWorker env' job w1 = (None, w2)"
    using pdfWorker_completes [OF run] by (simp add: w2_def)
  have "partFiles w2 = map (onId (partFileId job) (markCompleted job pages))
                        (map (onId (partFileId job) markProcessing) (partFiles w1))"
    by (simp add: w2_def split: option.splits del: map_map)
  also have "\<dots> = partFiles w1" unfolding f(5) by (rule recomplete)
  finally have rows: "partFiles w2 = partFiles w1" .
  have out1: "privateStorage w1 (securedPath (partFileId job)) = Some out"
    using f(6) apart by (simp split: if_splits)
  have out2: "privateStorage w2 (securedPath (partFileId job)) = Some out"
    unfolding w2_def using apart by (simp split: option.splits)
  from r rows out1 out2 show ?thesis by simp
qed

lemma rerun_without_source:
  assumes first: "pdfWorker env job w0 = (None, w1)"
    and gone: "privateStorage w1 (sourceKey job) = None"
  shows "\<exists>e. fst (pdfWorker env' job w1) = Some e
         \<and> (failedFault env' = None \<longrightarrow>
              (\<forall>r\<in>set (partFiles (snd (pdfWorker env' job w1))).
                 pf_id r = partFileId job \<longrightarrow> renderStatus r = FAILED))"
proof -
  from first obtain pages where f:
      "hasRow w0 (partFileId job)"
      "partFiles w1 = map (onId (partFileId job) (markCompleted job pages))
                        (map (onId (partFileId job) markProcessing) (partFiles w0))"
    by (rule pdfWorker_None) blast
  have ids: "map pf_id (partFiles w1) = map pf_id (partFiles w0)"
    unfolding f(2) by (simp only: ids_onId pf_id_marks)
  have known: "hasRow w1 (partFileId job)" using f(1) ids by (simp add: hasRow_def del: set_map)
  show ?thesis
  proof (cases rule: workerSteps_cases [of env' job w1])
    case (throws e w')
    then have st: "stepThrows env' job w1 e" by simp
    note pf = pdfWorker_failure [OF st]
    from pf have f1: "fst (pdfWorker env' job w1) = Some e" by (rule conjunct1)
    have f2: "failedFault env' = None \<longrightarrow>
              (\<forall>r\<in>set (partFiles (snd (pdfWorker env' job w1))).
                 pf_id r = partFileId job \<longrightarrow> renderStatus r = FAILED)"
    proof
      assume "failedFault env' = None"
      with known have c: "failedFault env' = None \<and> hasRow w1 (partFileId job)" by simp
      from pf [THEN conjunct2, THEN conjunct2] show
        "\<forall>r\<in>set (partFiles (snd (pdfWorker env' job w1))).
                 pf_id r = partFileId job \<longrightarrow> renderStatus r = FAILED"
        unfolding if_P [OF c] .
    qed
    from f1 f2 show ?thesis by (intro exI [of _ e] conjI)
  next
    case (completes b p out pages w')
    with gone show ?thesis by simp
  qed
qed

lemma completed_before:
  assumes "pdfWorker env job w0 = (None, w1)"
  shows "hasRow w1 (partFileId job)
       \<and> (\<forall>r\<in>set (partFiles w1). pf_id r = partFileId job \<longrightarrow> renderStatus r = COMPLETED)"
proof -
  from assms obtain pages where f:
      "hasRow w0 (partFileId job)"
      "partFiles w1 = map (onId (partFileId job) (markCompleted job pages))
                        (map (onId (partFileId job) markProcessing) (partFiles w0))"
    by (rule pdfWorker_None) blast
  have ids: "map pf_id (partFiles w1) = map pf_id (partFiles w0)"
    unfolding f(2) by (simp only: ids_onId pf_id_marks)
  have known: "hasRow w1 (partFileId job)" using f(1) ids by (simp add: hasRow_def del: set_map)
  from known completed_rows [of "partFileId job" job pages] show ?thesis
    unfolding f(2) by blast
qed


lemma kept_run:
  "workerSteps keepEnv demoJob stagedWorld
     = Inr (logLine ''Step 9: Failed to delete staged source file''
              (afterComplete demoJob [1, 2, 3, 87] 3 stagedWorld))"
  using steps_done [of keepEnv stagedWorld demoJob "[1, 2, 3]" "[1, 2, 3]" "[1, 2, 3, 87]" 3]
  by (simp add: staged_fields hasRow_def stagedRow_def keepEnv_def)

lemma kept_fields:
  "pdfWorker keepEnv demoJob stagedWorld = (None, keptWorld)"
  "privateStorage keptWorld (sourceKey demoJob) = privateStorage stagedWorld (sourceKey demoJob)"
  "partFiles keptWorld = [renderedRow]"
  by (simp_all add: keptWorld_def pdfWorker_completes [OF kept_run] staged_fields
      stagedRow_def renderedRow_def onId_def markProcessing_def markCompleted_def)

lemma rendered_run: "pdfWorker okEnv demoJob stagedWorld = (None, renderedWorld)"
  by (simp add: renderedWorld_def pdfWorker_completes [OF first_run])





subsection \<open>Reading an asset that is not rendered\<close>

lemma pageCount_marks [simp]:
  "pageCount (markProcessing r) = pageCount r" "pageCount (markFailed r) = pageCount r"
  "renderStatus (markCompleted job p r) = COMPLETED"
  by (simp_all add: markProcessing_def markFailed_def markCompleted_def)

text \<open>A run of the worker on an asset whose page count is 0 leaves it 0 unless it completes.\<close>

lemma pdfWorker_pageCount:
  assumes "\<forall>r\<in>set (partFiles w). renderStatus r \<noteq> COMPLETED \<longrightarrow> pageCount r = 0"
    and "\<forall>r\<in>set (partFiles w). pf_id r = partFileId job \<longrightarrow> pageCount r = 0"
  shows "\<forall>r\<in>set (partFiles (snd (pdfWorker env job w))).
           renderStatus r \<noteq> COMPLETED \<longrightarrow> pageCount r = 0"
proof (intro ballI impI)
  fix r' assume r': "r' \<in> set (partFiles (snd (pdfWorker env job w)))"
    and nc: "renderStatus r' \<noteq> COMPLETED"
  from row_after [OF r'] obtain r where r: "r \<in> set (partFiles w)"
    and c: "r' = r
         \<or> pf_id r = partFileId job
            \<and> (r' = markProcessing r \<or> r' = markFailed r \<or> r' = markFailed (markProcessing r)
                \<or> (\<exists>p. r' = markCompleted job p (markProcessing r)))"
    by blast
  from c show "pageCount r' = 0"
  proof
    assume "r' = r"
    with r nc assms(1) show ?thesis by simp
  next
    assume a: "pf_id r = partFileId job
            \<and> (r' = markProcessing r \<or> r' = markFailed r \<or> r' = markFailed (markProcessing r)
                \<or> (\<exists>p. r' = markCompleted job p (markProcessing r)))"
    with r assms(2) have z: "pageCount r = 0" by simp
    from a nc have "r' = markProcessing r \<or> r' = markFailed r \<or> r' = markFailed (markProcessing r)"
      by auto
    with z show ?thesis by auto
  qed
qed

text \<open>
  C10 (as amended).  For an asset whose page count is 0 and whose status is not
  COMPLETED (every asset that no run of the worker has completed), and a caller who
  passes the access checks, \<open>getRenderedPage\<close> fails with 404 ``Page not found'' for
  every page number from 1, where \<open>getSecurePdf\<close> answers 423.
\<close>

theorem unrendered_page_not_found:
  assumes "findPartFile w i = Some pf" and "parts w (pf_partId pf) = Some course"
    and "accessError w uid pf course = None"
    and "renderStatus pf \<noteq> COMPLETED" and "pageCount pf = 0" and "1 \<le> n"
  shows "getRenderedPage uid i n w = Inl (AppError ''Page not found'' 404)
       \<and> getSecurePdf uid i w = Inl (AppError ''Document is processing'' 423)"
  using assms by (simp add: getRenderedPage_def getSecurePdf_def)

lemma staged_access:
  "findPartFile stagedWorld ''f1'' = Some stagedRow"
  "parts stagedWorld (pf_partId stagedRow)
     = Some \<lparr> c_id = ''c1'', instructorId = ''alice'', isFree = False \<rparr>"
  "accessError stagedWorld ''alice'' stagedRow
     \<lparr> c_id = ''c1'', instructorId = ''alice'', isFree = False \<rparr> = None"
  by (simp_all add: findPartFile_def staged_fields stagedRow_def demoWorld_def emptyWorld_def
      accessError_def Let_def)

theorem unrendered_page_not_found_witness:
  "findPartFile stagedWorld ''f1'' = Some stagedRow
   \<and> renderStatus stagedRow = PROCESSING \<and> pageCount stagedRow = 0
   \<and> getRenderedPage ''alice'' ''f1'' 1 stagedWorld = Inl (AppError ''Page not found'' 404)
   \<and> getSecurePdf ''alice'' ''f1'' stagedWorld = Inl (AppError ''Document is processing'' 423)"
proof -
  have s: "renderStatus stagedRow \<noteq> COMPLETED" "pageCount stagedRow = 0" "(1::int) \<le> 1"
    by (simp_all add: stagedRow_def)
  from unrendered_page_not_found [OF staged_access s] staged_access(1)
  show ?thesis by (simp add: stagedRow_def)
qed

text \<open>
  The claim as stated fails for an asset that was completed once: the second delivery of
  its job leaves it FAILED with the page count of the first run, and the page check of
  \<open>getRenderedPage\<close> passes.
\<close>

theorem page_count_kept_after_redelivery:
  "map renderStatus (partFiles redeliveredWorld) = [FAILED]
   \<and> map pageCount (partFiles redeliveredWorld) = [3]
   \<and> getRenderedPage ''alice'' ''f1'' 1 redeliveredWorld
       = Inl (SystemError ''Storage object not found'')
   \<and> getSecurePdf ''alice'' ''f1'' redeliveredWorld = Inl (AppError ''Document is processing'' 423)"
  by (simp add: redelivered_fields renderedRow_def getRenderedPage_def getSecurePdf_def
      findPartFile_def demoWorld_def emptyWorld_def accessError_def Let_def downloadStream_def
      toString_def dec.simps digitChar_def)



subsection \<open>Validation of the declared size and chunk count\<close>

lemma mathCeilDiv_ceiling:
  "mathCeilDiv a b = \<lceil>real_of_int a / real_of_int b\<rceil>"
  by (simp add: mathCeilDiv_def ceiling_divide_eq_div)

lemma configured_ceiling:
  "mathCeilDiv a (CHUNK UPLOAD_LIMITS) = \<lceil>real_of_int a / (5 * 1024 * 1024)\<rceil>"
  by (simp add: mathCeilDiv_ceiling UPLOAD_LIMITS_def)

lemma initUpload_400:
  "(\<exists>msg. initUpload UPLOAD_LIMITS newId uid input w = Inl (AppError msg 400))
      \<longleftrightarrow> (fileSize input > 500 * 1024 * 1024
           \<or> totalChunks input \<noteq> \<lceil>real_of_int (fileSize input) / (5 * 1024 * 1024)\<rceil>)"
  unfolding initUpload_def Let_def configured_ceiling
  by (auto simp: UPLOAD_LIMITS_def split: option.splits)

lemma initUploadRedis_400:
  "(\<exists>msg. initUploadRedis UPLOAD_LIMITS newId uid input w = Inl (AppError msg 400))
      \<longleftrightarrow> (fileSize input > 500 * 1024 * 1024
           \<or> totalChunks input \<noteq> \<lceil>real_of_int (fileSize input) / (5 * 1024 * 1024)\<rceil>)"
  unfolding initUploadRedis_def Let_def configured_ceiling
  by (auto simp: UPLOAD_LIMITS_def split: option.splits)

text \<open>
  C7.  \<open>initUpload\<close> fails with an InvalidRequest error (status 400) exactly when the
  declared file size exceeds 500 MB or the declared chunk count differs from
  \<open>ceil(fileSize / 5 MB)\<close>; so a declared size of 10\,000\,000 bytes with one chunk
  fails with InvalidRequest, the expected count being 2.  Both variants of the service.
\<close>

theorem initUpload_InvalidRequest_iff:
  "((\<exists>msg. initUpload UPLOAD_LIMITS newId uid input w = Inl (AppError msg 400))
      \<longleftrightarrow> (fileSize input > 500 * 1024 * 1024
           \<or> totalChunks input \<noteq> \<lceil>real_of_int (fileSize input) / (5 * 1024 * 1024)\<rceil>))
   \<and> ((\<exists>msg. initUploadRedis UPLOAD_LIMITS newId uid input w = Inl (AppError msg 400))
      \<longleftrightarrow> (fileSize input > 500 * 1024 * 1024
           \<or> totalChunks input \<noteq> \<lceil>real_of_int (fileSize input) / (5 * 1024 * 1024)\<rceil>))
   \<and> (fileSize input = 10000000 \<and> totalChunks input = 1 \<longrightarrow>
        \<lceil>real_of_int (fileSize input) / (5 * 1024 * 1024)\<rceil> = 2
        \<and> (\<exists>msg. initUpload UPLOAD_LIMITS newId uid input w = Inl (AppError msg 400))
        \<and> (\<exists>msg. initUploadRedis UPLOAD_LIMITS newId uid input w = Inl (AppError msg 400)))"
proof -
  have ex: "fileSize input = 10000000 \<Longrightarrow>
              \<lceil>real_of_int (fileSize input) / (5 * 1024 * 1024)\<rceil> = 2"
    by simp
  from initUpload_400 [of newId uid input w] initUploadRedis_400 [of newId uid input w] ex
  show ?thesis by auto
qed

theorem initUpload_InvalidRequest_witness:
  "fileSize tenMillion = 10000000 \<and> totalChunks tenMillion = 1
   \<and> (\<exists>msg. initUpload UPLOAD_LIMITS ''u1'' ''alice'' tenMillion demoWorld = Inl (AppError msg 400))
   \<and> initUpload UPLOAD_LIMITS ''u1'' ''alice'' tenMillion demoWorld
       = Inl (AppError ''Invalid chunk count'' 400)"
proof -
  have a: "fileSize tenMillion = 10000000 \<and> totalChunks tenMillion = 1"
    by (simp add: tenMillion_def)
  from initUpload_InvalidRequest_iff [of "''u1''" "''alice''" tenMillion demoWorld] a
  have b: "\<exists>msg. initUpload UPLOAD_LIMITS ''u1'' ''alice'' tenMillion demoWorld = Inl (AppError msg 400)"
    by blast
  have c: "initUpload UPLOAD_LIMITS ''u1'' ''alice'' tenMillion demoWorld
       = Inl (AppError ''Invalid chunk count'' 400)"
    by (simp add: initUpload_def tenMillion_def UPLOAD_LIMITS_def mathCeilDiv_def)
  from a b c show ?thesis by blast
qed


end
